theory Spec2Isabelle
  imports Complex_Main "HOL-Library.Multiset" "HOL-Library.Char_ord"
    "HOL-Library.List_Lexorder" "HOL-Library.Product_Lexorder"
begin

section \<open>Sales dashboard (app.py): tables, loader, filter, metrics, grouped sums\<close>

text \<open>
  The program is one Python script over the pandas table library. A table (DataFrame)
  is modelled the way pandas stores it: a list of row labels and a list of named
  columns, every column a list of cells. Library calls of the script are modelled by
  HOL functions of the same name. What the script does not fix is a parameter of the
  model: what a library call computes from the text of a cell (parsing a date, parsing
  a number), how the installed version of the library writes a missing month as text,
  the order its default sort gives to equal values, and the rounding of its
  floating-point sums.
\<close>

subsection \<open>Cells, errors, tables\<close>

text \<open>
  A pandas Timestamp: its calendar fields and its position on the time axis
  (nanoseconds since the epoch), which subtraction uses.
\<close>

record timestamp =
  ts_year :: int
  ts_month :: nat
  ts_value :: int

text \<open>
  One cell of a table. \<open>Blank\<close> is the missing value (NaN, NaT, None), \<open>Txt\<close> a
  string, \<open>Num\<close> a number, \<open>Ts\<close> a date-time. A number is the rational that the
  floating-point value denotes; what the library's sums round to is a parameter of
  the functions that sum (\<open>sum_skipna\<close>, \<open>group_total\<close>).
\<close>

datatype cell = Blank | Txt string | Num rat | Ts timestamp

text \<open>The exceptions the script can meet.\<close>

datatype error =
    KeyError string       \<comment> \<open>no column of that name\<close>
  | NotASeries string     \<comment> \<open>several columns of that name: the lookup yields a table\<close>
  | DateParseError cell   \<comment> \<open>\<open>pd.to_datetime\<close> met a value it cannot convert\<close>
  | AttributeError        \<comment> \<open>\<open>.dt\<close> on a column that is not date-like\<close>
  | TypeError             \<comment> \<open>\<open>sorted\<close> compared values of different kinds\<close>

record frame =
  index :: "nat list"
  cols :: "(string \<times> cell list) list"

definition bind :: "error + 'a \<Rightarrow> ('a \<Rightarrow> error + 'b) \<Rightarrow> error + 'b" where
  "bind m f = (case m of Inl e \<Rightarrow> Inl e | Inr x \<Rightarrow> f x)"

text \<open>\<open>df[c]\<close>: the column named \<open>c\<close>.\<close>

definition getitem :: "frame \<Rightarrow> string \<Rightarrow> error + cell list" where
  "getitem df c =
     (case filter (\<lambda>p. fst p = c) (cols df) of
        [] \<Rightarrow> Inl (KeyError c)
      | [p] \<Rightarrow> Inr (snd p)
      | _ \<Rightarrow> Inl (NotASeries c))"

text \<open>\<open>df[c] = xs\<close>: replaces the column in place, or appends a new last column.\<close>

fun assign :: "string \<Rightarrow> cell list \<Rightarrow> (string \<times> cell list) list \<Rightarrow> (string \<times> cell list) list" where
  "assign c xs [] = [(c, xs)]"
| "assign c xs (p # ps) = (if fst p = c then (c, xs) # ps else p # assign c xs ps)"

definition setitem :: "frame \<Rightarrow> string \<Rightarrow> cell list \<Rightarrow> frame" where
  "setitem df c xs = df\<lparr>cols := assign c xs (cols df)\<rparr>"

text \<open>\<open>df.rename(columns=m)\<close>: names outside the mapping stay, names of the mapping
  that the table does not have are ignored.\<close>

definition rename :: "frame \<Rightarrow> (string \<times> string) list \<Rightarrow> frame" where
  "rename df m =
     df\<lparr>cols := map (\<lambda>p. (case map_of m (fst p) of Some c' \<Rightarrow> c' | None \<Rightarrow> fst p, snd p)) (cols df)\<rparr>"

text \<open>Positional selection of rows (\<open>take\<close>), on which boolean indexing, sorting and
  \<open>head\<close> are built.\<close>

definition take_rows :: "frame \<Rightarrow> nat list \<Rightarrow> frame" where
  "take_rows df ps =
     \<lparr>index = map ((!) (index df)) ps,
      cols = map (\<lambda>p. (fst p, map ((!) (snd p)) ps)) (cols df)\<rparr>"

text \<open>What the tables of the script satisfy: distinct row labels, distinct column names,
  columns as long as the index.\<close>

definition wf_frame :: "frame \<Rightarrow> bool" where
  "wf_frame df \<longleftrightarrow>
     distinct (index df) \<and> distinct (map fst (cols df)) \<and>
     list_all (\<lambda>p. length (snd p) = length (index df)) (cols df)"

text \<open>The columns of the list can all be looked up.\<close>

definition has_cols :: "frame \<Rightarrow> string list \<Rightarrow> bool" where
  "has_cols df cs = list_all (\<lambda>c. case getitem df c of Inr _ \<Rightarrow> True | Inl _ \<Rightarrow> False) cs"

text \<open>The rows of a table: the label and the named cells of each position.\<close>

type_synonym row = "nat \<times> (string \<times> cell) list"

definition row_at :: "frame \<Rightarrow> nat \<Rightarrow> row" where
  "row_at df i = (index df ! i, map (\<lambda>p. (fst p, snd p ! i)) (cols df))"

definition rows :: "frame \<Rightarrow> row list" where
  "rows df = map (row_at df) [0..<length (index df)]"

definition field :: "row \<Rightarrow> string \<Rightarrow> cell option" where
  "field r c = map_of (snd r) c"

subsection \<open>Section 1 of the script: \<open>load_data\<close>\<close>

text \<open>The nine source column names and their names in the code (UTF-8 bytes).\<close>

definition column_names :: "(string \<times> string) list" where
  "column_names =
     [(''Data da Venda'', ''data_venda''),
      (''Data de Emiss'' @ [CHR 0xC3, CHR 0xA3] @ ''o da NF'', ''data_nf''),
      (''Cliente'', ''cliente''),
      (''Vendedor Respons'' @ [CHR 0xC3, CHR 0xA1] @ ''vel'', ''vendedor''),
      (''Tipo de Solu'' @ [CHR 0xC3, CHR 0xA7, CHR 0xC3, CHR 0xA3] @ ''o'', ''tipo_solucao''),
      (''Descri'' @ [CHR 0xC3, CHR 0xA7, CHR 0xC3, CHR 0xA3] @ ''o do Projeto'', ''descricao_projeto''),
      (''Valor da Venda (R$)'', ''valor_venda''),
      (''OS.'', ''os''),
      (''Proposta'', ''proposta'')]"

text \<open>
  What the library makes of one value that is neither missing nor already a date-time
  when asked for a date-time: it cannot (\<open>Fails\<close>), it reads it as the missing date
  (\<open>NaT\<close>, as for the text "NaT"), or it reads a date-time.
\<close>

datatype parsed = Fails | NaT | Stamp timestamp

text \<open>
  \<open>pd.to_datetime(col)\<close> with the default \<open>errors="raise"\<close>, as the script calls it:
  the first value that cannot be converted raises.
\<close>

fun to_datetime :: "(cell \<Rightarrow> parsed) \<Rightarrow> cell list \<Rightarrow> error + cell list" where
  "to_datetime conv [] = Inr []"
| "to_datetime conv (c # cs) =
     (case (case c of Blank \<Rightarrow> NaT | Ts t \<Rightarrow> Stamp t | _ \<Rightarrow> conv c) of
        Fails \<Rightarrow> Inl (DateParseError c)
      | NaT \<Rightarrow> bind (to_datetime conv cs) (\<lambda>r. Inr (Blank # r))
      | Stamp t \<Rightarrow> bind (to_datetime conv cs) (\<lambda>r. Inr (Ts t # r)))"

text \<open>\<open>pd.to_numeric(col, errors="coerce")\<close>: what cannot be read as a number becomes
  missing; nothing raises.\<close>

definition to_numeric :: "(cell \<Rightarrow> rat option) \<Rightarrow> cell list \<Rightarrow> cell list" where
  "to_numeric conv cs =
     map (\<lambda>c. case c of Blank \<Rightarrow> Blank | Num r \<Rightarrow> Num r
               | _ \<Rightarrow> (case conv c of None \<Rightarrow> Blank | Some r \<Rightarrow> Num r)) cs"

text \<open>\<open>.dt.year\<close>, \<open>.dt.month\<close>: the field, missing for a missing date.\<close>

definition dt_year :: "cell \<Rightarrow> cell" where
  "dt_year c = (case c of Ts t \<Rightarrow> Num (of_int (ts_year t)) | _ \<Rightarrow> Blank)"

definition dt_month :: "cell \<Rightarrow> cell" where
  "dt_month c = (case c of Ts t \<Rightarrow> Num (of_nat (ts_month t)) | _ \<Rightarrow> Blank)"

text \<open>
  \<open>.dt.to_period("M").astype(str)\<close>: the month period printed as text, four digits of
  year (a Timestamp lies between the years 1677 and 2262), a dash, two digits of month.
  What \<open>astype(str)\<close> makes of the missing period depends on the installed pandas,
  which the repository does not pin: pandas 2 writes the text "NaT", pandas 3 keeps
  the value missing. It is the parameter \<open>na\<close>.
\<close>

definition digit :: "nat \<Rightarrow> char" where
  "digit d = ''0123456789'' ! (d mod 10)"

definition period_str :: "timestamp \<Rightarrow> string" where
  "period_str t =
     (let y = nat (ts_year t); m = ts_month t
      in [digit (y div 1000), digit (y div 100), digit (y div 10), digit y,
          CHR ''-'', digit (m div 10), digit m])"

definition to_period_str :: "cell \<Rightarrow> cell \<Rightarrow> cell" where
  "to_period_str na c = (case c of Ts t \<Rightarrow> Txt (period_str t) | _ \<Rightarrow> na)"

definition pandas2_na :: cell where
  "pandas2_na = Txt ''NaT''"

definition pandas3_na :: cell where
  "pandas3_na = Blank"

text \<open>
  \<open>load_data\<close>, lines 12 to 41, from the table \<open>raw\<close> that \<open>pd.read_excel\<close> returned for
  the first sheet. Every column lookup of the source is a lookup here.
\<close>

definition load_data ::
  "(cell \<Rightarrow> parsed) \<Rightarrow> (cell \<Rightarrow> rat option) \<Rightarrow> cell \<Rightarrow> frame \<Rightarrow> error + frame" where
  "load_data to_stamp to_num na raw =
     (let df = rename raw column_names in
      bind (getitem df ''data_venda'') (\<lambda>dv.
      bind (to_datetime to_stamp dv) (\<lambda>dv'.
      let df = setitem df ''data_venda'' dv' in
      bind (getitem df ''data_nf'') (\<lambda>nf.
      bind (to_datetime to_stamp nf) (\<lambda>nf'.
      let df = setitem df ''data_nf'' nf' in
      bind (getitem df ''valor_venda'') (\<lambda>vv.
      let df = setitem df ''valor_venda'' (to_numeric to_num vv) in
      bind (getitem df ''data_venda'') (\<lambda>d1.
      let df = setitem df ''ano'' (map dt_year d1) in
      bind (getitem df ''data_venda'') (\<lambda>d2.
      let df = setitem df ''mes'' (map dt_month d2) in
      bind (getitem df ''data_venda'') (\<lambda>d3.
      let df = setitem df ''ano_mes'' (map (to_period_str na) d3) in
      Inr df)))))))))"

subsection \<open>Section 3 of the script: the filters\<close>

definition dropna :: "cell list \<Rightarrow> cell list" where
  "dropna xs = filter (\<lambda>c. c \<noteq> Blank) xs"

text \<open>\<open>.unique()\<close>: the distinct values, in order of first appearance.\<close>

definition unique :: "cell list \<Rightarrow> cell list" where
  "unique xs = rev (remdups (rev xs))"

text \<open>
  The order of values of one kind: numbers by value, date-times by position on the time
  axis, strings by code point (bytewise on UTF-8).
\<close>

definition kind :: "cell \<Rightarrow> nat" where
  "kind c = (case c of Blank \<Rightarrow> 0 | Num _ \<Rightarrow> 1 | Ts _ \<Rightarrow> 2 | Txt _ \<Rightarrow> 3)"

definition cell_key :: "cell \<Rightarrow> nat \<times> rat \<times> int \<times> string" where
  "cell_key c =
     (case c of Blank \<Rightarrow> (0, 0, 0, [])
      | Num r \<Rightarrow> (1, r, 0, [])
      | Ts t \<Rightarrow> (2, 0, ts_value t, [])
      | Txt s \<Rightarrow> (3, 0, 0, s))"

text \<open>Python's \<open>sorted\<close>: comparing a string with a number or a date-time raises.\<close>

definition sorted_py :: "cell list \<Rightarrow> error + cell list" where
  "sorted_py xs =
     (if list_all (\<lambda>x. list_all (\<lambda>y. kind x = kind y) xs) xs
      then Inr (sort_key cell_key xs) else Inl TypeError)"

text \<open>\<open>sorted(df[c].dropna().unique())\<close>: the options of one filter (lines 65, 70, 75, 80).\<close>

definition options :: "frame \<Rightarrow> string \<Rightarrow> error + cell list" where
  "options df c = bind (getitem df c) (\<lambda>xs. sorted_py (unique (dropna xs)))"

text \<open>
  \<open>st.sidebar.multiselect(label, options=opts, default=opts)\<close> returns the options the
  user has left ticked: all of them by default, and never a value that is not an
  option. The script uses the result through \<open>isin\<close> only, so the order in which the
  widget returns them does not matter; here it is the order of the options.
\<close>

definition multiselect :: "cell list \<Rightarrow> (cell \<Rightarrow> bool) \<Rightarrow> cell list" where
  "multiselect opts ticked = filter ticked opts"

record selection =
  ano_selecionado :: "cell list"
  vendedor_selecionado :: "cell list"
  tipo_selecionado :: "cell list"
  cliente_selecionado :: "cell list"

text \<open>The four widgets of lines 65 to 83; \<open>ticked\<close> is what the user did to each.\<close>

definition sidebar :: "frame \<Rightarrow> (string \<Rightarrow> cell \<Rightarrow> bool) \<Rightarrow> error + selection" where
  "sidebar df ticked =
     bind (options df ''ano'') (\<lambda>anos.
     bind (options df ''vendedor'') (\<lambda>vendedores.
     bind (options df ''tipo_solucao'') (\<lambda>tipos.
     bind (options df ''cliente'') (\<lambda>clientes.
     Inr \<lparr>ano_selecionado = multiselect anos (ticked ''ano''),
          vendedor_selecionado = multiselect vendedores (ticked ''vendedor''),
          tipo_selecionado = multiselect tipos (ticked ''tipo_solucao''),
          cliente_selecionado = multiselect clientes (ticked ''cliente'')\<rparr>))))"

text \<open>\<open>col.isin(values)\<close>, \<open>&\<close> on boolean columns, and \<open>df[mask]\<close>, which takes the rows
  at the positions where the mask is true.\<close>

definition isin :: "cell list \<Rightarrow> cell list \<Rightarrow> bool list" where
  "isin xs vals = map (\<lambda>x. x \<in> set vals) xs"

definition mask_and :: "bool list \<Rightarrow> bool list \<Rightarrow> bool list" where
  "mask_and a b = map2 (\<and>) a b"

definition nonzero :: "bool list \<Rightarrow> nat list" where
  "nonzero m = filter (\<lambda>i. m ! i) [0..<length m]"

definition getitem_mask :: "frame \<Rightarrow> bool list \<Rightarrow> frame" where
  "getitem_mask df m = take_rows df (nonzero m)"

text \<open>\<open>.copy()\<close>: a table of the same content (a new object: see the store below).\<close>

definition copy :: "frame \<Rightarrow> frame" where
  "copy df = df"

text \<open>Lines 86 to 91: the mask, then \<open>df[mask].copy()\<close>.\<close>

definition filter_mask :: "frame \<Rightarrow> selection \<Rightarrow> error + bool list" where
  "filter_mask df sel =
     bind (getitem df ''ano'') (\<lambda>a.
     bind (getitem df ''vendedor'') (\<lambda>v.
     bind (getitem df ''tipo_solucao'') (\<lambda>t.
     bind (getitem df ''cliente'') (\<lambda>c.
     Inr (mask_and (mask_and (mask_and (isin a (ano_selecionado sel))
                                       (isin v (vendedor_selecionado sel)))
                             (isin t (tipo_selecionado sel)))
                   (isin c (cliente_selecionado sel)))))))"

definition df_filtrado :: "frame \<Rightarrow> selection \<Rightarrow> error + frame" where
  "df_filtrado df sel = bind (filter_mask df sel) (\<lambda>m. Inr (copy (getitem_mask df m)))"

subsection \<open>Section 4 of the script: the metrics\<close>

text \<open>
  \<open>col.sum()\<close>: the sum of an empty column is 0; otherwise missing values are replaced
  by 0 and the library adds the values up, in floating point (or in 64-bit integers,
  for a column that it holds as integers). \<open>fsum\<close> is that addition: it returns the
  exact sum \<open>sum_list\<close> when no step of it rounds or overflows, and another number
  otherwise.
\<close>

definition fillna0 :: "cell list \<Rightarrow> rat list" where
  "fillna0 xs = map (\<lambda>c. case c of Num r \<Rightarrow> r | _ \<Rightarrow> 0) xs"

definition sum_skipna :: "(rat list \<Rightarrow> rat) \<Rightarrow> cell list \<Rightarrow> rat" where
  "sum_skipna fsum xs = (if xs = [] then 0 else fsum (fillna0 xs))"

definition total_vendas :: "(rat list \<Rightarrow> rat) \<Rightarrow> frame \<Rightarrow> error + rat" where
  "total_vendas fsum sub = bind (getitem sub ''valor_venda'') (\<lambda>vs. Inr (sum_skipna fsum vs))"

definition qtd_vendas :: "frame \<Rightarrow> nat" where
  "qtd_vendas sub = length (index sub)"

text \<open>Line 99: \<open>total_vendas / qtd_vendas if qtd_vendas > 0 else 0\<close>. The quotient is the
  exact one (the floating-point quotient is the number nearest to it).\<close>

definition ticket_medio :: "rat \<Rightarrow> nat \<Rightarrow> rat" where
  "ticket_medio tv qtd = (if qtd > 0 then tv / of_nat qtd else 0)"

text \<open>
  Line 102: the difference of two date columns, in whole days (\<open>.dt.days\<close> rounds
  towards minus infinity); missing where either date is missing. \<open>.dt\<close> needs a
  date-like column.
\<close>

definition ns_per_day :: int where
  "ns_per_day = 86400 * 1000000000"

definition datetimelike :: "cell list \<Rightarrow> bool" where
  "datetimelike xs = list_all (\<lambda>c. case c of Blank \<Rightarrow> True | Ts _ \<Rightarrow> True | _ \<Rightarrow> False) xs"

definition days_between :: "cell \<Rightarrow> cell \<Rightarrow> cell" where
  "days_between nf dv =
     (case (nf, dv) of
        (Ts a, Ts b) \<Rightarrow> Num (of_int ((ts_value a - ts_value b) div ns_per_day))
      | _ \<Rightarrow> Blank)"

definition lead_time_dias :: "frame \<Rightarrow> error + cell list" where
  "lead_time_dias sub =
     bind (getitem sub ''data_nf'') (\<lambda>nf.
     bind (getitem sub ''data_venda'') (\<lambda>dv.
     if datetimelike nf \<and> datetimelike dv then Inr (map2 days_between nf dv)
     else Inl AttributeError))"

text \<open>\<open>col.mean()\<close>: the sum as above, divided by the number of values present; NaN
  (\<open>None\<close>) when there is none.\<close>

definition present :: "cell list \<Rightarrow> rat list" where
  "present xs = concat (map (\<lambda>c. case c of Num r \<Rightarrow> [r] | _ \<Rightarrow> []) xs)"

definition mean_skipna :: "(rat list \<Rightarrow> rat) \<Rightarrow> cell list \<Rightarrow> rat option" where
  "mean_skipna fsum xs =
     (let vs = present xs
      in if vs = [] then None else Some (sum_skipna fsum xs / of_nat (length vs)))"

text \<open>Line 109: the fourth card shows the mean to one decimal, or a dash for NaN.\<close>

datatype metric_card = Dash | OneDecimal rat

definition ciclo_card :: "rat option \<Rightarrow> metric_card" where
  "ciclo_card m = (case m of None \<Rightarrow> Dash | Some r \<Rightarrow> OneDecimal r)"

record kpis =
  k_total_vendas :: rat
  k_qtd_vendas :: nat
  k_ticket_medio :: rat
  k_ciclo_medio :: "rat option"

text \<open>Lines 97 to 103. The second component is \<open>df_filtrado\<close> with its new column.\<close>

definition metrics :: "(rat list \<Rightarrow> rat) \<Rightarrow> frame \<Rightarrow> error + kpis \<times> frame" where
  "metrics fsum sub =
     bind (total_vendas fsum sub) (\<lambda>tv.
     let qtd = qtd_vendas sub; ticket = ticket_medio tv qtd in
     bind (lead_time_dias sub) (\<lambda>lt.
     let sub' = setitem sub ''lead_time_dias'' lt in
     bind (getitem sub' ''lead_time_dias'') (\<lambda>col.
     Inr (\<lparr>k_total_vendas = tv, k_qtd_vendas = qtd, k_ticket_medio = ticket,
           k_ciclo_medio = mean_skipna fsum col\<rparr>, sub'))))"

subsection \<open>Sections 5 to 9 of the script: grouped sums, sorting, the detail table\<close>

text \<open>
  \<open>df.groupby(k, as_index=False)[v].sum()\<close> with the defaults \<open>sort=True\<close> and
  \<open>dropna=True\<close>: one row per distinct key that is not missing, keys ascending; rows
  whose key is missing belong to no group. The result has the columns \<open>k\<close> and \<open>v\<close>
  and the row labels \<open>0, 1, ...\<close>. The sum of a group skips missing values and is 0
  when none is left; \<open>gsum\<close> is the library's floating-point addition of the values of
  one group, in the order of the rows (not the same routine as \<open>col.sum()\<close>).
\<close>

definition group_keys :: "cell list \<Rightarrow> cell list" where
  "group_keys ks = sort_key cell_key (unique (dropna ks))"

definition group_values :: "cell list \<Rightarrow> cell list \<Rightarrow> cell \<Rightarrow> cell list" where
  "group_values ks vs g = map snd (filter (\<lambda>p. fst p = g) (zip ks vs))"

definition group_total :: "(rat list \<Rightarrow> rat) \<Rightarrow> cell list \<Rightarrow> cell list \<Rightarrow> cell \<Rightarrow> rat" where
  "group_total gsum ks vs g =
     (let ws = present (group_values ks vs g) in if ws = [] then 0 else gsum ws)"

definition groupby_sum :: "(rat list \<Rightarrow> rat) \<Rightarrow> frame \<Rightarrow> string \<Rightarrow> string \<Rightarrow> error + frame" where
  "groupby_sum gsum df k v =
     bind (getitem df k) (\<lambda>ks.
     bind (getitem df v) (\<lambda>vs.
     let keys = group_keys ks in
     Inr \<lparr>index = [0..<length keys],
          cols = [(k, keys), (v, map (\<lambda>g. Num (group_total gsum ks vs g)) keys)]\<rparr>))"

text \<open>
  \<open>df.sort_values(by, ascending=...)\<close> on one column uses the default
  \<open>kind="quicksort"\<close> through pandas' \<open>nargsort\<close>: missing values are set aside and
  placed last; for a descending sort the values are reversed, argsorted and the result
  reversed. The library's \<open>argsort\<close> of that kind returns positions that put the
  values in ascending order; the order it gives to equal values is not specified, so
  \<open>argsort\<close> is a parameter here and \<open>argsort_ok\<close> says what is known of it.
\<close>

definition argsort_ok :: "(cell list \<Rightarrow> nat list) \<Rightarrow> bool" where
  "argsort_ok argsort \<longleftrightarrow>
     (\<forall>xs. mset (argsort xs) = mset [0..<length xs] \<and>
           sorted (map (\<lambda>i. cell_key (xs ! i)) (argsort xs)))"

definition nargsort :: "(cell list \<Rightarrow> nat list) \<Rightarrow> cell list \<Rightarrow> bool \<Rightarrow> nat list" where
  "nargsort argsort items ascending =
     (let idx = [0..<length items];
          non_nan_idx = filter (\<lambda>i. items ! i \<noteq> Blank) idx;
          nan_idx = filter (\<lambda>i. items ! i = Blank) idx;
          non_nans = map ((!) items) non_nan_idx;
          non_nans' = (if ascending then non_nans else rev non_nans);
          non_nan_idx' = (if ascending then non_nan_idx else rev non_nan_idx);
          indexer = map ((!) non_nan_idx') (argsort non_nans');
          indexer' = (if ascending then indexer else rev indexer)
      in indexer' @ nan_idx)"

definition sort_values :: "(cell list \<Rightarrow> nat list) \<Rightarrow> frame \<Rightarrow> string \<Rightarrow> bool \<Rightarrow> error + frame" where
  "sort_values argsort df by ascending =
     bind (getitem df by) (\<lambda>ks. Inr (take_rows df (nargsort argsort ks ascending)))"

text \<open>\<open>df.head(n)\<close>: the first \<open>n\<close> rows.\<close>

definition head :: "nat \<Rightarrow> frame \<Rightarrow> frame" where
  "head n df = take_rows df [0..<min n (length (index df))]"

text \<open>\<open>df.empty\<close>: no rows or no columns.\<close>

definition empty :: "frame \<Rightarrow> bool" where
  "empty df \<longleftrightarrow> index df = [] \<or> cols df = []"

text \<open>Lines 120 to 125, 147 to 152, 173 to 179 and 201 to 206.\<close>

definition df_mes ::
  "(cell list \<Rightarrow> nat list) \<Rightarrow> (rat list \<Rightarrow> rat) \<Rightarrow> frame \<Rightarrow> error + frame" where
  "df_mes argsort gsum sub =
     bind (groupby_sum gsum sub ''ano_mes'' ''valor_venda'') (\<lambda>g.
     sort_values argsort g ''ano_mes'' True)"

definition df_tipo ::
  "(cell list \<Rightarrow> nat list) \<Rightarrow> (rat list \<Rightarrow> rat) \<Rightarrow> frame \<Rightarrow> error + frame" where
  "df_tipo argsort gsum sub =
     bind (groupby_sum gsum sub ''tipo_solucao'' ''valor_venda'') (\<lambda>g.
     sort_values argsort g ''valor_venda'' False)"

definition df_cliente ::
  "(cell list \<Rightarrow> nat list) \<Rightarrow> (rat list \<Rightarrow> rat) \<Rightarrow> frame \<Rightarrow> error + frame" where
  "df_cliente argsort gsum sub =
     bind (groupby_sum gsum sub ''cliente'' ''valor_venda'') (\<lambda>g.
     bind (sort_values argsort g ''valor_venda'' False) (\<lambda>s.
     Inr (head 10 s)))"

definition df_vendedor ::
  "(cell list \<Rightarrow> nat list) \<Rightarrow> (rat list \<Rightarrow> rat) \<Rightarrow> frame \<Rightarrow> error + frame" where
  "df_vendedor argsort gsum sub =
     bind (groupby_sum gsum sub ''vendedor'' ''valor_venda'') (\<lambda>g.
     sort_values argsort g ''valor_venda'' False)"

text \<open>Each chart is drawn \<open>if not df_filtrado.empty\<close>; otherwise a notice is shown
  (\<open>None\<close>).\<close>

definition chart :: "(frame \<Rightarrow> error + frame) \<Rightarrow> frame \<Rightarrow> error + frame option" where
  "chart f sub = (if \<not> empty sub then bind (f sub) (\<lambda>t. Inr (Some t)) else Inr None)"

text \<open>\<open>df[[c1, ..., cn]]\<close>: the named columns, in that order.\<close>

fun select_cols :: "frame \<Rightarrow> string list \<Rightarrow> error + (string \<times> cell list) list" where
  "select_cols df [] = Inr []"
| "select_cols df (c # cs) =
     bind (getitem df c) (\<lambda>xs. bind (select_cols df cs) (\<lambda>r. Inr ((c, xs) # r)))"

text \<open>Lines 224 to 237.\<close>

definition tabela :: "(cell list \<Rightarrow> nat list) \<Rightarrow> frame \<Rightarrow> error + frame" where
  "tabela argsort sub =
     bind (select_cols sub [''data_venda'', ''data_nf'', ''cliente'', ''vendedor'',
             ''tipo_solucao'', ''descricao_projeto'', ''valor_venda'', ''os'', ''proposta''])
       (\<lambda>cs. sort_values argsort \<lparr>index = index sub, cols = cs\<rparr> ''data_venda'' False)"

subsection \<open>The script as a whole, on a store of table objects\<close>

text \<open>
  Tables are objects: a variable holds the address of one, and \<open>df[c] = xs\<close> changes the
  object in place. The store is the list of the objects made so far, an address is a
  position in it. \<open>df[mask]\<close> and \<open>.copy()\<close> each make a new object.
\<close>

type_synonym addr = nat

definition alloc :: "frame \<Rightarrow> frame list \<Rightarrow> frame list \<times> addr" where
  "alloc f h = (h @ [f], length h)"

definition setitem_at :: "addr \<Rightarrow> string \<Rightarrow> cell list \<Rightarrow> frame list \<Rightarrow> frame list" where
  "setitem_at a c xs h = h[a := setitem (h ! a) c xs]"

record screen =
  s_kpis :: kpis
  s_card4 :: metric_card
  s_mes :: "frame option"
  s_tipo :: "frame option"
  s_cliente :: "frame option"
  s_vendedor :: "frame option"
  s_tabela :: frame

text \<open>
  Lines 63 to 237, run on a store \<open>h\<close> in which the variable \<open>df\<close> holds the address
  \<open>df\<close> of the table that \<open>load_data\<close> returned. The result is the store at the end and
  what the page shows.
\<close>

definition dashboard ::
  "(cell list \<Rightarrow> nat list) \<Rightarrow> (rat list \<Rightarrow> rat) \<Rightarrow> (rat list \<Rightarrow> rat) \<Rightarrow>
   (string \<Rightarrow> cell \<Rightarrow> bool) \<Rightarrow> frame list \<Rightarrow> addr \<Rightarrow> error + frame list \<times> addr \<times> screen" where
  "dashboard argsort fsum gsum ticked h df =
     bind (sidebar (h ! df) ticked) (\<lambda>sel.
     bind (filter_mask (h ! df) sel) (\<lambda>m.
     let (h1, tmp) = alloc (getitem_mask (h ! df) m) h;
         (h2, df_filtrado) = alloc (copy (h1 ! tmp)) h1 in
     bind (total_vendas fsum (h2 ! df_filtrado)) (\<lambda>tv.
     let qtd = qtd_vendas (h2 ! df_filtrado); ticket = ticket_medio tv qtd in
     bind (lead_time_dias (h2 ! df_filtrado)) (\<lambda>lt.
     let h3 = setitem_at df_filtrado ''lead_time_dias'' lt h2 in
     bind (getitem (h3 ! df_filtrado) ''lead_time_dias'') (\<lambda>col.
     let ciclo = mean_skipna fsum col in
     bind (chart (df_mes argsort gsum) (h3 ! df_filtrado)) (\<lambda>c1.
     bind (chart (df_tipo argsort gsum) (h3 ! df_filtrado)) (\<lambda>c2.
     bind (chart (df_cliente argsort gsum) (h3 ! df_filtrado)) (\<lambda>c3.
     bind (chart (df_vendedor argsort gsum) (h3 ! df_filtrado)) (\<lambda>c4.
     bind (tabela argsort (h3 ! df_filtrado)) (\<lambda>tab.
     Inr (h3, df_filtrado,
          \<lparr>s_kpis = \<lparr>k_total_vendas = tv, k_qtd_vendas = qtd, k_ticket_medio = ticket,
                     k_ciclo_medio = ciclo\<rparr>,
           s_card4 = ciclo_card ciclo,
           s_mes = c1, s_tipo = c2, s_cliente = c3, s_vendedor = c4,
           s_tabela = tab\<rparr>)))))))))))"

subsection \<open>The library's sort: numpy's quicksort for \<open>argsort\<close>\<close>

text \<open>
  A sort that keeps equal values in the order of their positions, as \<open>kind="stable"\<close>
  would ask for.
\<close>

definition argsort_stable :: "cell list \<Rightarrow> nat list" where
  "argsort_stable xs = map fst (sort_key (\<lambda>p. cell_key (snd p)) (enumerate 0 xs))"

text \<open>
  The sort that the code gets: \<open>kind="quicksort"\<close> ends in numpy's \<open>argsort\<close>, whose
  portable routine is \<open>aquicksort_\<close> of \<open>numpy/_core/src/npysort/quicksort.cpp\<close>. It
  sorts the array \<open>tosort\<close> of positions \<open>0, 1, ..., num - 1\<close> in place by the values
  \<open>v\<close>: ranges of more than 17 positions (\<open>pr - pl > SMALL_QUICKSORT\<close>, which is 16) are
  partitioned around the median of three, the larger part is pushed on a stack and the
  smaller one continued with; a range of at most 17 positions is sorted by insertion.
  A build of numpy for a processor with vector instructions may dispatch a vectorised
  routine instead, which orders equal values in its own way.

  \<open>t\<close> is the array \<open>tosort\<close>; \<open>pl\<close>, \<open>pm\<close>, \<open>pr\<close> are the offsets into it of the pointers of
  these names, \<open>i\<close> and \<open>j\<close> those of the pointers \<open>pi\<close> and \<open>pj\<close>.
\<close>

definition less_cell :: "cell \<Rightarrow> cell \<Rightarrow> bool" where
  "less_cell a b \<longleftrightarrow> cell_key a < cell_key b"

text \<open>\<open>INTP_SWAP(*pi, *pj)\<close>.\<close>

definition swap :: "nat list \<Rightarrow> nat \<Rightarrow> nat \<Rightarrow> nat list" where
  "swap t i j = (t[i := t ! j])[j := t ! i]"

text \<open>The three conditional swaps that put the median of \<open>*pl\<close>, \<open>*pm\<close>, \<open>*pr\<close> at \<open>pm\<close>.\<close>

definition median3 :: "cell list \<Rightarrow> nat list \<Rightarrow> nat \<Rightarrow> nat \<Rightarrow> nat \<Rightarrow> nat list" where
  "median3 v t pl pm pr =
     (let t1 = (if less_cell (v ! (t ! pm)) (v ! (t ! pl)) then swap t pm pl else t);
          t2 = (if less_cell (v ! (t1 ! pr)) (v ! (t1 ! pm)) then swap t1 pr pm else t1)
      in if less_cell (v ! (t2 ! pm)) (v ! (t2 ! pl)) then swap t2 pm pl else t2)"

text \<open>
  \<open>do { ++pi; } while (less(v[*pi], vp))\<close> and \<open>do { --pj; } while (less(vp, v[*pj]))\<close>.
  In the routine both stop inside the range, at the pivot or at a value put there by
  the median of three; leaving the array is \<open>None\<close> here.
\<close>

function scan_up :: "cell list \<Rightarrow> nat list \<Rightarrow> cell \<Rightarrow> nat \<Rightarrow> nat option" where
  "scan_up v t vp i =
     (if length t \<le> i + 1 then None
      else if less_cell (v ! (t ! (i + 1))) vp then scan_up v t vp (i + 1)
      else Some (i + 1))"
  by pat_completeness auto

termination scan_up
  by (relation "measure (\<lambda>(v, t, vp, i). length t - i)") auto

declare scan_up.simps [simp del]

fun scan_down :: "cell list \<Rightarrow> nat list \<Rightarrow> cell \<Rightarrow> nat \<Rightarrow> nat option" where
  "scan_down v t vp 0 = None"
| "scan_down v t vp (Suc j) =
     (if less_cell vp (v ! (t ! j)) then scan_down v t vp j else Some j)"

text \<open>
  The loop \<open>for (;;)\<close> of the partition: both scans, \<open>if (pi >= pj) break\<close>, the swap.
  Each round moves \<open>pi\<close> up, so the first argument, a bound on the number of rounds,
  is never used up when it is the length of the array.
\<close>

fun partition_loop ::
  "nat \<Rightarrow> cell list \<Rightarrow> nat list \<Rightarrow> cell \<Rightarrow> nat \<Rightarrow> nat \<Rightarrow> (nat list \<times> nat) option" where
  "partition_loop 0 v t vp i j = None"
| "partition_loop (Suc n) v t vp i j =
     (case scan_up v t vp i of
        None \<Rightarrow> None
      | Some i' \<Rightarrow>
          (case scan_down v t vp j of
             None \<Rightarrow> None
           | Some j' \<Rightarrow>
               if j' \<le> i' then Some (t, i')
               else partition_loop n v (swap t i' j') vp i' j'))"

text \<open>
  The insertion sort of a short range: for each \<open>pi\<close> from \<open>pl + 1\<close> to \<open>pr\<close>, the
  position \<open>vi = *pi\<close> moves down past the positions of greater value
  (\<open>while (pj > pl && less(vp, v[*pk])) *pj-- = *pk--\<close>), then \<open>*pj = vi\<close>.
\<close>

fun shift_down :: "cell list \<Rightarrow> nat list \<Rightarrow> nat \<Rightarrow> cell \<Rightarrow> nat \<Rightarrow> nat list \<times> nat" where
  "shift_down v t pl vp 0 = (t, 0)"
| "shift_down v t pl vp (Suc k) =
     (if pl < Suc k \<and> less_cell vp (v ! (t ! k))
      then shift_down v (t[Suc k := t ! k]) pl vp k
      else (t, Suc k))"

definition insert_at :: "cell list \<Rightarrow> nat \<Rightarrow> nat list \<Rightarrow> nat \<Rightarrow> nat list" where
  "insert_at v pl t i =
     (let vi = t ! i; (t', j) = shift_down v t pl (v ! vi) i in t'[j := vi])"

definition insertion_sort :: "cell list \<Rightarrow> nat list \<Rightarrow> nat \<Rightarrow> nat \<Rightarrow> nat list" where
  "insertion_sort v t pl pr = foldl (insert_at v pl) t [pl + 1..<pr + 1]"

text \<open>\<open>npy_get_msb\<close>: the position of the highest bit; the depth limit is twice that.\<close>

fun npy_get_msb :: "nat \<Rightarrow> nat" where
  "npy_get_msb n = (if n < 2 then 0 else Suc (npy_get_msb (n div 2)))"

declare npy_get_msb.simps [simp del]

text \<open>
  The outer loop \<open>while (1)\<close>. \<open>at_head\<close> says that control is at its head, where the depth
  limit is tested (after a range was popped, and at the start); the inner
  \<open>while ((pr - pl) > SMALL_QUICKSORT)\<close> partitions without testing it. The stack
  holds the ranges put aside with the depth left for each. When the depth limit is
  used up numpy sorts the range by heapsort; that branch is not modelled and gives
  \<open>None\<close>, as does running out of the first argument, a bound on the number of
  rounds.
\<close>

fun aquicksort_loop ::
  "nat \<Rightarrow> cell list \<Rightarrow> nat list \<Rightarrow> nat \<Rightarrow> nat \<Rightarrow> int \<Rightarrow> (nat \<times> nat \<times> int) list \<Rightarrow> bool \<Rightarrow>
   nat list option" where
  "aquicksort_loop 0 v t pl pr cdepth stack at_head = None"
| "aquicksort_loop (Suc n) v t pl pr cdepth stack at_head =
     (if at_head \<and> cdepth < 0 then None
      else if pr - pl > 16 then
        (let pm = pl + (pr - pl) div 2;
             t1 = median3 v t pl pm pr;
             vp = v ! (t1 ! pm);
             t2 = swap t1 pm (pr - 1)
         in case partition_loop (length t) v t2 vp pl (pr - 1) of
              None \<Rightarrow> None
            | Some (t3, i) \<Rightarrow>
                (let t4 = swap t3 i (pr - 1) in
                 if i - pl < pr - i
                 then aquicksort_loop n v t4 pl (i - 1) (cdepth - 1)
                        ((i + 1, pr, cdepth - 1) # stack) False
                 else aquicksort_loop n v t4 (i + 1) pr (cdepth - 1)
                        ((pl, i - 1, cdepth - 1) # stack) False))
      else
        (let t' = insertion_sort v t pl pr in
         case stack of
           [] \<Rightarrow> Some t'
         | (l, r, d) # st \<Rightarrow> aquicksort_loop n v t' l r d st True))"

definition aquicksort :: "cell list \<Rightarrow> nat list option" where
  "aquicksort v =
     (let num = length v in
      if num = 0 then Some []
      else aquicksort_loop (2 * num + 1) v [0..<num] 0 (num - 1) (2 * int (npy_get_msb num)) [] True)"

text \<open>\<open>np.argsort(v, kind="quicksort")\<close> with that routine, where it is modelled.\<close>

definition np_quicksort :: "cell list \<Rightarrow> nat list" where
  "np_quicksort v = (case aquicksort v of Some t \<Rightarrow> t | None \<Rightarrow> [0..<length v])"

subsection \<open>The claims' own words\<close>

text \<open>A row qualifies when, in each of the four dimensions, its value is a member of the
  selection set of the dimension.\<close>

definition member :: "row \<Rightarrow> string \<Rightarrow> cell list \<Rightarrow> bool" where
  "member r c vals = (case field r c of None \<Rightarrow> False | Some x \<Rightarrow> x \<in> set vals)"

definition qualifies :: "selection \<Rightarrow> row \<Rightarrow> bool" where
  "qualifies sel r \<longleftrightarrow>
     member r ''ano'' (ano_selecionado sel) \<and>
     member r ''vendedor'' (vendedor_selecionado sel) \<and>
     member r ''tipo_solucao'' (tipo_selecionado sel) \<and>
     member r ''cliente'' (cliente_selecionado sel)"

text \<open>The four filter dimensions with their selection sets.\<close>

definition dims :: "selection \<Rightarrow> (string \<times> cell list) list" where
  "dims sel =
     [(''ano'', ano_selecionado sel), (''vendedor'', vendedor_selecionado sel),
      (''tipo_solucao'', tipo_selecionado sel), (''cliente'', cliente_selecionado sel)]"

text \<open>A row with a value that is not missing in each of the four filter dimensions.\<close>

definition complete :: "row \<Rightarrow> bool" where
  "complete r =
     list_all (\<lambda>c. case field r c of Some x \<Rightarrow> x \<noteq> Blank | None \<Rightarrow> False)
       [''ano'', ''vendedor'', ''tipo_solucao'', ''cliente'']"

text \<open>
  Lines 97 to 237 as a function of the filtered table alone: what the page shows, and
  the filtered table with the column that line 102 adds.
\<close>

definition render ::
  "(cell list \<Rightarrow> nat list) \<Rightarrow> (rat list \<Rightarrow> rat) \<Rightarrow> (rat list \<Rightarrow> rat) \<Rightarrow> frame \<Rightarrow>
   error + screen \<times> frame" where
  "render argsort fsum gsum sub =
     bind (metrics fsum sub) (\<lambda>(k, sub').
     bind (chart (df_mes argsort gsum) sub') (\<lambda>c1.
     bind (chart (df_tipo argsort gsum) sub') (\<lambda>c2.
     bind (chart (df_cliente argsort gsum) sub') (\<lambda>c3.
     bind (chart (df_vendedor argsort gsum) sub') (\<lambda>c4.
     bind (tabela argsort sub') (\<lambda>tab.
     Inr (\<lparr>s_kpis = k, s_card4 = ciclo_card (k_ciclo_medio k),
           s_mes = c1, s_tipo = c2, s_cliente = c3, s_vendedor = c4, s_tabela = tab\<rparr>,
          sub')))))))"

definition grouped ::
  "(rat list \<Rightarrow> rat) \<Rightarrow> string \<Rightarrow> string \<Rightarrow> cell list \<Rightarrow> cell list \<Rightarrow> frame" where
  "grouped gsum k v ks vs =
     \<lparr>index = [0..<length (group_keys ks)],
      cols = [(k, group_keys ks), (v, map (\<lambda>g. Num (group_total gsum ks vs g)) (group_keys ks))]\<rparr>"

text \<open>
  The groups of the grouping by \<open>k\<close> hold every row of the table once: the sale values
  of the groups, taken together, are the sale values of the table.
\<close>

definition rows_in_groups :: "frame \<Rightarrow> string \<Rightarrow> bool" where
  "rows_in_groups sub k =
     (case getitem sub k of
        Inl _ \<Rightarrow> False
      | Inr ks \<Rightarrow>
          (case getitem sub ''valor_venda'' of
             Inl _ \<Rightarrow> False
           | Inr vs \<Rightarrow> mset (concat (map (group_values ks vs) (group_keys ks))) = mset vs))"

text \<open>
  No floating-point sum of the table rounds: the sum of the sale values and, for each
  of the four groupings, the sum of each group are the exact sums.
\<close>

definition group_sums_exact :: "(rat list \<Rightarrow> rat) \<Rightarrow> frame \<Rightarrow> string \<Rightarrow> bool" where
  "group_sums_exact gsum sub k =
     (case getitem sub k of
        Inl _ \<Rightarrow> False
      | Inr ks \<Rightarrow>
          (case getitem sub ''valor_venda'' of
             Inl _ \<Rightarrow> False
           | Inr vs \<Rightarrow>
               list_all (\<lambda>g. gsum (present (group_values ks vs g)) = sum_list (present (group_values ks vs g)))
                 (group_keys ks)))"

definition sums_exact :: "(rat list \<Rightarrow> rat) \<Rightarrow> (rat list \<Rightarrow> rat) \<Rightarrow> frame \<Rightarrow> bool" where
  "sums_exact fsum gsum sub \<longleftrightarrow>
     (case getitem sub ''valor_venda'' of
        Inl _ \<Rightarrow> False
      | Inr vs \<Rightarrow> fsum (fillna0 vs) = sum_list (fillna0 vs)) \<and>
     group_sums_exact gsum sub ''ano_mes'' \<and> group_sums_exact gsum sub ''tipo_solucao'' \<and>
     group_sums_exact gsum sub ''vendedor'' \<and> group_sums_exact gsum sub ''cliente''"

text \<open>A table in ascending, or descending, order of the values of one column.\<close>

definition ascending_by :: "frame \<Rightarrow> string \<Rightarrow> bool" where
  "ascending_by t c = (case getitem t c of Inr xs \<Rightarrow> sorted (map cell_key xs) | Inl _ \<Rightarrow> False)"

definition descending_by :: "frame \<Rightarrow> string \<Rightarrow> bool" where
  "descending_by t c = (case getitem t c of Inr xs \<Rightarrow> sorted (rev (map cell_key xs)) | Inl _ \<Rightarrow> False)"

text \<open>
  A sort is stable when it leaves equal values in the order of their positions. In a
  table of grouped sums the row labels are the positions of the groups, so ties are in
  the original group order when rows with equal sums are in the order of their labels.
\<close>

definition stable :: "(cell list \<Rightarrow> nat list) \<Rightarrow> bool" where
  "stable argsort \<longleftrightarrow>
     (\<forall>xs. sorted_wrt (\<lambda>a b. cell_key (xs ! a) = cell_key (xs ! b) \<longrightarrow> a < b) (argsort xs))"

definition ties_in_group_order :: "frame \<Rightarrow> bool" where
  "ties_in_group_order t =
     sorted_wrt (\<lambda>r r'. field r ''valor_venda'' = field r' ''valor_venda'' \<longrightarrow> fst r < fst r')
       (rows t)"

text \<open>The filtered table of a run of the script on a sheet: lines 57 to 91.\<close>

definition filtered_of_sheet ::
  "(cell \<Rightarrow> parsed) \<Rightarrow> (cell \<Rightarrow> rat option) \<Rightarrow> cell \<Rightarrow> (string \<Rightarrow> cell \<Rightarrow> bool) \<Rightarrow> frame \<Rightarrow>
   error + frame" where
  "filtered_of_sheet to_stamp to_num na ticked raw =
     bind (load_data to_stamp to_num na raw) (\<lambda>df.
     bind (sidebar df ticked) (\<lambda>sel. df_filtrado df sel))"

subsection \<open>Example sheets\<close>

text \<open>
  Three sales (15 January, 10 February and 20 January 2023, at midnight UTC) in a
  sheet with the nine source columns; the sheet with a sale date that is the text
  "abc"; the sheet with an empty sale date; the sheet without the customer column; the
  sheet without the invoice-date column.
\<close>

definition jan15 :: timestamp where
  "jan15 = \<lparr>ts_year = 2023, ts_month = 1, ts_value = 1673740800000000000\<rparr>"

definition feb10 :: timestamp where
  "feb10 = \<lparr>ts_year = 2023, ts_month = 2, ts_value = 1675987200000000000\<rparr>"

definition jan20 :: timestamp where
  "jan20 = \<lparr>ts_year = 2023, ts_month = 1, ts_value = 1674172800000000000\<rparr>"

definition sheet3 :: frame where
  "sheet3 =
     \<lparr>index = [0, 1, 2],
      cols =
        [(''Data da Venda'', [Ts jan15, Ts feb10, Ts jan20]),
         (''Data de Emiss'' @ [CHR 0xC3, CHR 0xA3] @ ''o da NF'', [Ts feb10, Blank, Ts jan15]),
         (''Cliente'', [Txt ''A'', Txt ''A'', Txt ''B'']),
         (''Vendedor Respons'' @ [CHR 0xC3, CHR 0xA1] @ ''vel'', [Txt ''V'', Txt ''W'', Txt ''V'']),
         (''Tipo de Solu'' @ [CHR 0xC3, CHR 0xA7, CHR 0xC3, CHR 0xA3] @ ''o'', [Txt ''X'', Txt ''Y'', Txt ''X'']),
         (''Descri'' @ [CHR 0xC3, CHR 0xA7, CHR 0xC3, CHR 0xA3] @ ''o do Projeto'', [Txt ''p'', Blank, Txt ''q'']),
         (''Valor da Venda (R$)'', [Num 100, Num 50, Num 200]),
         (''OS.'', [Num 1, Num 2, Num 3]),
         (''Proposta'', [Txt ''P1'', Txt ''P2'', Txt ''P3''])]\<rparr>"

definition sheet_text_date :: frame where
  "sheet_text_date = setitem sheet3 ''Data da Venda'' [Ts jan15, Ts feb10, Txt ''abc'']"

definition sheet_blank_date :: frame where
  "sheet_blank_date = setitem sheet3 ''Data da Venda'' [Ts jan15, Blank, Ts jan20]"

definition sheet_no_cliente :: frame where
  "sheet_no_cliente = sheet3\<lparr>cols := filter (\<lambda>p. fst p \<noteq> ''Cliente'') (cols sheet3)\<rparr>"

definition sheet_no_nf :: frame where
  "sheet_no_nf =
     sheet3\<lparr>cols := filter (\<lambda>p. fst p \<noteq> ''Data de Emiss'' @ [CHR 0xC3, CHR 0xA3] @ ''o da NF'')
                       (cols sheet3)\<rparr>"

text \<open>A library that reads no text and no number as a date-time, or as a number.\<close>

definition strict_dates :: "cell \<Rightarrow> parsed" where
  "strict_dates c = Fails"

definition no_numbers :: "cell \<Rightarrow> rat option" where
  "no_numbers c = None"

text \<open>The table that \<open>load_data\<close> makes of \<open>sheet3\<close>.\<close>

definition loaded3 :: frame where
  "loaded3 =
     \<lparr>index = [0, 1, 2],
      cols =
        [(''data_venda'', [Ts jan15, Ts feb10, Ts jan20]),
         (''data_nf'', [Ts feb10, Blank, Ts jan15]),
         (''cliente'', [Txt ''A'', Txt ''A'', Txt ''B'']),
         (''vendedor'', [Txt ''V'', Txt ''W'', Txt ''V'']),
         (''tipo_solucao'', [Txt ''X'', Txt ''Y'', Txt ''X'']),
         (''descricao_projeto'', [Txt ''p'', Blank, Txt ''q'']),
         (''valor_venda'', [Num 100, Num 50, Num 200]),
         (''os'', [Num 1, Num 2, Num 3]),
         (''proposta'', [Txt ''P1'', Txt ''P2'', Txt ''P3'']),
         (''ano'', [Num 2023, Num 2023, Num 2023]),
         (''mes'', [Num 1, Num 2, Num 1]),
         (''ano_mes'', [Txt ''2023-01'', Txt ''2023-02'', Txt ''2023-01''])]\<rparr>"

text \<open>Two selections on that table: one salesperson, and everything.\<close>

definition sel_v :: selection where
  "sel_v = \<lparr>ano_selecionado = [Num 2023], vendedor_selecionado = [Txt ''V''],
            tipo_selecionado = [Txt ''X'', Txt ''Y''], cliente_selecionado = [Txt ''A'', Txt ''B'']\<rparr>"

definition sel_all :: selection where
  "sel_all = \<lparr>ano_selecionado = [Num 2023], vendedor_selecionado = [Txt ''V'', Txt ''W''],
            tipo_selecionado = [Txt ''X'', Txt ''Y''], cliente_selecionado = [Txt ''A'', Txt ''B'']\<rparr>"

definition sel_none :: selection where
  "sel_none = \<lparr>ano_selecionado = [], vendedor_selecionado = [Txt ''V'', Txt ''W''],
            tipo_selecionado = [Txt ''X'', Txt ''Y''], cliente_selecionado = [Txt ''A'', Txt ''B'']\<rparr>"

text \<open>What the page shows for \<open>loaded3\<close> with every widget at its default (no two
  values that are sorted are equal, and no sum rounds).\<close>

definition screen3 :: screen where
  "screen3 =
     \<lparr>s_kpis = \<lparr>k_total_vendas = 350, k_qtd_vendas = 3, k_ticket_medio = 350 / 3,
                k_ciclo_medio = Some (21 / 2)\<rparr>,
      s_card4 = OneDecimal (21 / 2),
      s_mes = Some \<lparr>index = [0, 1],
                cols = [(''ano_mes'', [Txt ''2023-01'', Txt ''2023-02'']),
                        (''valor_venda'', [Num 300, Num 50])]\<rparr>,
      s_tipo = Some \<lparr>index = [0, 1],
                cols = [(''tipo_solucao'', [Txt ''X'', Txt ''Y'']),
                        (''valor_venda'', [Num 300, Num 50])]\<rparr>,
      s_cliente = Some \<lparr>index = [1, 0],
                cols = [(''cliente'', [Txt ''B'', Txt ''A'']),
                        (''valor_venda'', [Num 200, Num 150])]\<rparr>,
      s_vendedor = Some \<lparr>index = [0, 1],
                cols = [(''vendedor'', [Txt ''V'', Txt ''W'']),
                        (''valor_venda'', [Num 300, Num 50])]\<rparr>,
      s_tabela = take_rows (loaded3\<lparr>cols := take 9 (cols loaded3)\<rparr>) [1, 2, 0]\<rparr>"

text \<open>A sheet of four sales with gaps: no sale date in the second row, no salesperson in
  the third, a sale value that is not a number in the fourth; and what \<open>load_data\<close>
  makes of it with pandas 2 (\<open>loaded_gaps\<close>) and with pandas 3 (\<open>loaded_gaps3\<close>).\<close>

definition sheet_gaps :: frame where
  "sheet_gaps =
     \<lparr>index = [0, 1, 2, 3],
      cols =
        [(''Data da Venda'', [Ts jan15, Blank, Ts jan20, Ts feb10]),
         (''Data de Emiss'' @ [CHR 0xC3, CHR 0xA3] @ ''o da NF'', [Ts feb10, Blank, Ts jan15, Blank]),
         (''Cliente'', [Txt ''A'', Txt ''A'', Txt ''B'', Txt ''B'']),
         (''Vendedor Respons'' @ [CHR 0xC3, CHR 0xA1] @ ''vel'', [Txt ''V'', Txt ''W'', Blank, Txt ''V'']),
         (''Tipo de Solu'' @ [CHR 0xC3, CHR 0xA7, CHR 0xC3, CHR 0xA3] @ ''o'', [Txt ''X'', Txt ''Y'', Txt ''X'', Txt ''Y'']),
         (''Descri'' @ [CHR 0xC3, CHR 0xA7, CHR 0xC3, CHR 0xA3] @ ''o do Projeto'', [Txt ''p'', Blank, Txt ''q'', Blank]),
         (''Valor da Venda (R$)'', [Num 100, Num 50, Num 200, Txt ''n/d'']),
         (''OS.'', [Num 1, Num 2, Num 3, Num 4]),
         (''Proposta'', [Txt ''P1'', Txt ''P2'', Txt ''P3'', Txt ''P4''])]\<rparr>"

definition loaded_gaps :: frame where
  "loaded_gaps =
     \<lparr>index = [0, 1, 2, 3],
      cols =
        [(''data_venda'', [Ts jan15, Blank, Ts jan20, Ts feb10]),
         (''data_nf'', [Ts feb10, Blank, Ts jan15, Blank]),
         (''cliente'', [Txt ''A'', Txt ''A'', Txt ''B'', Txt ''B'']),
         (''vendedor'', [Txt ''V'', Txt ''W'', Blank, Txt ''V'']),
         (''tipo_solucao'', [Txt ''X'', Txt ''Y'', Txt ''X'', Txt ''Y'']),
         (''descricao_projeto'', [Txt ''p'', Blank, Txt ''q'', Blank]),
         (''valor_venda'', [Num 100, Num 50, Num 200, Blank]),
         (''os'', [Num 1, Num 2, Num 3, Num 4]),
         (''proposta'', [Txt ''P1'', Txt ''P2'', Txt ''P3'', Txt ''P4'']),
         (''ano'', [Num 2023, Blank, Num 2023, Num 2023]),
         (''mes'', [Num 1, Blank, Num 1, Num 2]),
         (''ano_mes'', [Txt ''2023-01'', Txt ''NaT'', Txt ''2023-01'', Txt ''2023-02''])]\<rparr>"

definition loaded_gaps3 :: frame where
  "loaded_gaps3 =
     setitem loaded_gaps ''ano_mes'' [Txt ''2023-01'', Blank, Txt ''2023-01'', Txt ''2023-02'']"

text \<open>Two customers with equal totals; eleven customers, and eighteen customers, with
  one sale of 1 each.\<close>

definition sheet_tie :: frame where
  "sheet_tie =
     \<lparr>index = [0, 1],
      cols =
        [(''Data da Venda'', [Ts jan15, Ts jan20]),
         (''Data de Emiss'' @ [CHR 0xC3, CHR 0xA3] @ ''o da NF'', [Blank, Blank]),
         (''Cliente'', [Txt ''A'', Txt ''B'']),
         (''Vendedor Respons'' @ [CHR 0xC3, CHR 0xA1] @ ''vel'', [Txt ''V'', Txt ''V'']),
         (''Tipo de Solu'' @ [CHR 0xC3, CHR 0xA7, CHR 0xC3, CHR 0xA3] @ ''o'', [Txt ''X'', Txt ''X'']),
         (''Descri'' @ [CHR 0xC3, CHR 0xA7, CHR 0xC3, CHR 0xA3] @ ''o do Projeto'', [Blank, Blank]),
         (''Valor da Venda (R$)'', [Num 100, Num 100]),
         (''OS.'', [Blank, Blank]),
         (''Proposta'', [Blank, Blank])]\<rparr>"

definition sheet11 :: frame where
  "sheet11 =
     \<lparr>index = [0, 1, 2, 3, 4, 5, 6, 7, 8, 9, 10],
      cols =
        [(''Data da Venda'', replicate 11 (Ts jan15)),
         (''Data de Emiss'' @ [CHR 0xC3, CHR 0xA3] @ ''o da NF'', replicate 11 Blank),
         (''Cliente'', [Txt ''C00'', Txt ''C01'', Txt ''C02'', Txt ''C03'', Txt ''C04'', Txt ''C05'',
                       Txt ''C06'', Txt ''C07'', Txt ''C08'', Txt ''C09'', Txt ''C10'']),
         (''Vendedor Respons'' @ [CHR 0xC3, CHR 0xA1] @ ''vel'', replicate 11 (Txt ''V'')),
         (''Tipo de Solu'' @ [CHR 0xC3, CHR 0xA7, CHR 0xC3, CHR 0xA3] @ ''o'', replicate 11 (Txt ''X'')),
         (''Descri'' @ [CHR 0xC3, CHR 0xA7, CHR 0xC3, CHR 0xA3] @ ''o do Projeto'', replicate 11 Blank),
         (''Valor da Venda (R$)'', replicate 11 (Num 1)),
         (''OS.'', replicate 11 Blank),
         (''Proposta'', replicate 11 Blank)]\<rparr>"

definition sheet18 :: frame where
  "sheet18 =
     \<lparr>index = [0..<18],
      cols =
        [(''Data da Venda'', replicate 18 (Ts jan15)),
         (''Data de Emiss'' @ [CHR 0xC3, CHR 0xA3] @ ''o da NF'', replicate 18 Blank),
         (''Cliente'', [Txt ''C00'', Txt ''C01'', Txt ''C02'', Txt ''C03'', Txt ''C04'', Txt ''C05'',
                       Txt ''C06'', Txt ''C07'', Txt ''C08'', Txt ''C09'', Txt ''C10'', Txt ''C11'',
                       Txt ''C12'', Txt ''C13'', Txt ''C14'', Txt ''C15'', Txt ''C16'', Txt ''C17'']),
         (''Vendedor Respons'' @ [CHR 0xC3, CHR 0xA1] @ ''vel'', replicate 18 (Txt ''V'')),
         (''Tipo de Solu'' @ [CHR 0xC3, CHR 0xA7, CHR 0xC3, CHR 0xA3] @ ''o'', replicate 18 (Txt ''X'')),
         (''Descri'' @ [CHR 0xC3, CHR 0xA7, CHR 0xC3, CHR 0xA3] @ ''o do Projeto'', replicate 18 Blank),
         (''Valor da Venda (R$)'', replicate 18 (Num 1)),
         (''OS.'', replicate 18 Blank),
         (''Proposta'', replicate 18 Blank)]\<rparr>"

subsection \<open>Lemmas: tables\<close>

lemma bind_Inr_iff: "bind m f = Inr y \<longleftrightarrow> (\<exists>x. m = Inr x \<and> f x = Inr y)"
  by (cases m) (simp_all add: bind_def)

lemma bind_Inr [simp]: "bind (Inr x) f = f x"
  by (simp add: bind_def)

lemma bind_Inl [simp]: "bind (Inl e) f = Inl e"
  by (simp add: bind_def)

lemma filter_assign_other:
  "c' \<noteq> c \<Longrightarrow> filter (\<lambda>p. fst p = c') (assign c xs ps) = filter (\<lambda>p. fst p = c') ps"
  by (induction ps) auto

lemma filter_assign_same:
  "length (filter (\<lambda>p. fst p = c) ps) \<le> 1 \<Longrightarrow> filter (\<lambda>p. fst p = c) (assign c xs ps) = [(c, xs)]"
proof (induction ps)
  case Nil
  then show ?case by simp
next
  case (Cons p ps)
  show ?case
  proof (cases "fst p = c")
    case True
    with Cons.prems have "filter (\<lambda>p. fst p = c) ps = []" by simp
    with True show ?thesis by simp
  next
    case False
    with Cons show ?thesis by simp
  qed
qed

lemma getitem_setitem_other: "c' \<noteq> c \<Longrightarrow> getitem (setitem df c xs) c' = getitem df c'"
  by (simp add: getitem_def setitem_def filter_assign_other)

lemma getitem_setitem_same:
  "getitem df c = Inr ys \<Longrightarrow> getitem (setitem df c xs) c = Inr xs"
  by (auto simp: getitem_def setitem_def filter_assign_same split: list.splits)

lemma getitem_setitem_new:
  "length (filter (\<lambda>p. fst p = c) (cols df)) \<le> 1 \<Longrightarrow> getitem (setitem df c xs) c = Inr xs"
  by (simp add: getitem_def setitem_def filter_assign_same)

lemma getitem_Inl: "getitem df c = Inl e \<Longrightarrow> e = KeyError c \<or> e = NotASeries c"
  by (auto simp: getitem_def split: list.splits)

lemma getitem_mem: "getitem df c = Inr xs \<Longrightarrow> (c, xs) \<in> set (cols df)"
proof -
  assume "getitem df c = Inr xs"
  then obtain p where p: "filter (\<lambda>p. fst p = c) (cols df) = [p]" "snd p = xs"
    by (auto simp: getitem_def split: list.splits)
  then have "p \<in> set (filter (\<lambda>p. fst p = c) (cols df))" by simp
  then have "fst p = c" "p \<in> set (cols df)" by simp_all
  with p show ?thesis by (cases p) simp
qed

lemma getitem_length: "wf_frame df \<Longrightarrow> getitem df c = Inr xs \<Longrightarrow> length xs = length (index df)"
  by (auto simp: wf_frame_def list_all_iff dest!: getitem_mem)

lemma set_assign: "set (assign c xs ps) \<subseteq> insert (c, xs) (set ps)"
  by (induction ps) auto

lemma map_fst_assign:
  "map fst (assign c xs ps) = (if c \<in> fst ` set ps then map fst ps else map fst ps @ [c])"
  by (induction ps) auto

lemma wf_setitem: "wf_frame df \<Longrightarrow> length xs = length (index df) \<Longrightarrow> wf_frame (setitem df c xs)"
  using set_assign [of c xs "cols df"]
  by (auto simp: wf_frame_def setitem_def list_all_iff map_fst_assign)

lemma distinct_count_le1: "distinct (map fst ps) \<Longrightarrow> length (filter (\<lambda>p. fst p = c) ps) \<le> 1"
  by (induction ps) (force simp: filter_empty_conv)+

lemma getitem_setitem_wf: "wf_frame df \<Longrightarrow> getitem (setitem df c xs) c = Inr xs"
  by (rule getitem_setitem_new, rule distinct_count_le1) (simp add: wf_frame_def)

lemma index_setitem [simp]: "index (setitem df c xs) = index df"
  by (simp add: setitem_def)

lemma index_rename [simp]: "index (rename df m) = index df"
  by (simp add: rename_def)

lemma to_datetime_Inr:
  "to_datetime conv cs = Inr ds \<Longrightarrow> length ds = length cs \<and> datetimelike ds"
proof (induction cs arbitrary: ds)
  case Nil
  then show ?case by (simp add: datetimelike_def)
next
  case (Cons c cs)
  let ?p = "case c of Blank \<Rightarrow> NaT | Ts t \<Rightarrow> Stamp t | _ \<Rightarrow> conv c"
  from Cons.prems obtain r where r: "to_datetime conv cs = Inr r"
    and ds: "ds = Blank # r \<or> (\<exists>t. ds = Ts t # r)"
    by (cases ?p) (auto simp: bind_Inr_iff)
  from Cons.IH [OF r] ds show ?case
    by (auto simp: datetimelike_def)
qed

lemma to_datetime_Fails:
  "c \<in> set cs \<Longrightarrow> c \<noteq> Blank \<Longrightarrow> (\<forall>t. c \<noteq> Ts t) \<Longrightarrow> conv c = Fails \<Longrightarrow> \<exists>e. to_datetime conv cs = Inl e"
proof (induction cs)
  case Nil
  then show ?case by simp
next
  case (Cons d cs)
  show ?case
  proof (cases "c = d")
    case True
    with Cons.prems show ?thesis by (cases d) simp_all
  next
    case False
    with Cons obtain e where "to_datetime conv cs = Inl e" by auto
    then show ?thesis by (simp split: parsed.splits cell.splits)
  qed
qed

text \<open>A column that is already date-like converts to itself.\<close>
lemma to_datetime_datetimelike: "datetimelike cs \<Longrightarrow> to_datetime conv cs = Inr cs"
  by (induction cs) (auto simp: datetimelike_def split: cell.splits)

lemma length_filter_mono:
  "(\<And>x. x \<in> set xs \<Longrightarrow> P x \<Longrightarrow> Q x) \<Longrightarrow> length (filter P xs) \<le> length (filter Q xs)"
  by (induction xs) auto

subsection \<open>Lemmas: \<open>load_data\<close>\<close>

lemma load_data_Inr:
  assumes ld: "load_data ts tn na raw = Inr df" and wf0: "wf_frame (rename raw column_names)"
  shows "\<exists>dv nf vv. wf_frame df \<and> index df = index raw \<and>
     getitem df ''data_venda'' = Inr dv \<and> datetimelike dv \<and>
     getitem df ''data_nf'' = Inr nf \<and> datetimelike nf \<and>
     getitem df ''valor_venda'' = Inr vv \<and>
     getitem df ''ano'' = Inr (map dt_year dv) \<and>
     getitem df ''mes'' = Inr (map dt_month dv) \<and>
     getitem df ''ano_mes'' = Inr (map (to_period_str na) dv)"
proof -
  define d0 where "d0 = rename raw column_names"
  have wf0: "wf_frame d0" and i0: "index d0 = index raw" using wf0 by (simp_all add: d0_def)
  from ld obtain dv0 dv nf0 nf vv0 where
    g1: "getitem d0 ''data_venda'' = Inr dv0" and t1: "to_datetime ts dv0 = Inr dv" and
    g2: "getitem (setitem d0 ''data_venda'' dv) ''data_nf'' = Inr nf0" and t2: "to_datetime ts nf0 = Inr nf" and
    g3: "getitem (setitem (setitem d0 ''data_venda'' dv) ''data_nf'' nf) ''valor_venda'' = Inr vv0" and
    df: "df = setitem (setitem (setitem (setitem (setitem (setitem d0 ''data_venda'' dv) ''data_nf'' nf)
            ''valor_venda'' (to_numeric tn vv0)) ''ano'' (map dt_year dv)) ''mes'' (map dt_month dv))
            ''ano_mes'' (map (to_period_str na) dv)"
    by (auto simp: load_data_def Let_def bind_Inr_iff d0_def [symmetric]
          getitem_setitem_other getitem_setitem_same)
  define d3 where "d3 = setitem (setitem (setitem d0 ''data_venda'' dv) ''data_nf'' nf) ''valor_venda'' (to_numeric tn vv0)"
  have g2': "getitem d0 ''data_nf'' = Inr nf0" using g2 by (simp add: getitem_setitem_other)
  have g3': "getitem d0 ''valor_venda'' = Inr vv0" using g3 by (simp add: getitem_setitem_other)
  have l1: "length dv = length (index raw)" "datetimelike dv"
    using to_datetime_Inr [OF t1] getitem_length [OF wf0 g1] by (simp_all add: i0)
  have l2: "length nf = length (index raw)" "datetimelike nf"
    using to_datetime_Inr [OF t2] getitem_length [OF wf0 g2'] by (simp_all add: i0)
  have l3: "length vv0 = length (index raw)"
    using getitem_length [OF wf0 g3'] by (simp add: i0)
  have wf3: "wf_frame d3" "index d3 = index raw"
    using wf0 l1 l2 l3 by (simp_all add: d3_def wf_setitem to_numeric_def i0)
  define d4 where "d4 = setitem d3 ''ano'' (map dt_year dv)"
  define d5 where "d5 = setitem d4 ''mes'' (map dt_month dv)"
  have wf4: "wf_frame d4" "index d4 = index raw" using wf3 l1 by (simp_all add: d4_def wf_setitem)
  have wf5: "wf_frame d5" "index d5 = index raw" using wf4 l1 by (simp_all add: d5_def wf_setitem)
  have df': "df = setitem d5 ''ano_mes'' (map (to_period_str na) dv)"
    by (simp add: df d3_def d4_def d5_def)
  have "wf_frame df" "index df = index raw"
    using wf5 l1 by (simp_all add: df' wf_setitem)
  moreover have "getitem df ''data_venda'' = Inr dv"
    using g1 by (simp add: df getitem_setitem_other getitem_setitem_same)
  moreover have "getitem df ''data_nf'' = Inr nf"
    using g2 by (simp add: df getitem_setitem_other getitem_setitem_same)
  moreover have "getitem df ''valor_venda'' = Inr (to_numeric tn vv0)"
    using g3 by (simp add: df getitem_setitem_other getitem_setitem_same)
  moreover have "getitem df ''ano'' = Inr (map dt_year dv)"
    using getitem_setitem_wf [OF wf3(1)] by (simp add: df' d5_def d4_def getitem_setitem_other)
  moreover have "getitem df ''mes'' = Inr (map dt_month dv)"
    using getitem_setitem_wf [OF wf4(1)] by (simp add: df' d5_def getitem_setitem_other)
  moreover have "getitem df ''ano_mes'' = Inr (map (to_period_str na) dv)"
    using getitem_setitem_wf [OF wf5(1)] by (simp add: df')
  ultimately show ?thesis using l1 l2 by blast
qed

text \<open>
  The sheet that \<open>pd.read_excel\<close> returns has distinct column names. The renamed table
  has them too, unless the sheet already holds a column under one of the nine names of
  the code.
\<close>

lemma map_of_inj_targets:
  assumes d: "distinct (map snd m)" and a: "map_of m a = Some t" and b: "map_of m b = Some t"
  shows "a = b"
proof -
  from a b have "(a, t) \<in> set m" "(b, t) \<in> set m" by (auto dest: map_of_SomeD)
  then have m: "(a, t) \<in> set m" "(b, t) \<in> set m" by simp_all
  from d have i: "inj_on snd (set m)" by (simp add: distinct_map)
  have "(a, t) = (b, t)" by (rule inj_onD [OF i _ m]) simp
  then show ?thesis by simp
qed

lemma wf_rename:
  assumes wf: "wf_frame raw"
    and nc: "\<forall>c \<in> snd ` set column_names. c \<notin> fst ` set (cols raw)"
  shows "wf_frame (rename raw column_names)"
proof -
  define nm where "nm k = (case map_of column_names k of Some c' \<Rightarrow> c' | None \<Rightarrow> k)" for k
  have d: "distinct (map snd column_names)" by (simp add: column_names_def)
  have inj: "inj_on nm (fst ` set (cols raw))"
  proof (rule inj_onI)
    fix a b assume a: "a \<in> fst ` set (cols raw)" and b: "b \<in> fst ` set (cols raw)"
      and e: "nm a = nm b"
    show "a = b"
    proof (cases "map_of column_names a")
      case None
      show ?thesis
      proof (cases "map_of column_names b")
        case None
        with \<open>map_of column_names a = None\<close> e show ?thesis by (simp add: nm_def)
      next
        case (Some t)
        with None e have "a = t" "(b, t) \<in> set column_names"
          by (auto simp: nm_def dest: map_of_SomeD)
        with nc a show ?thesis by force
      qed
    next
      case (Some t)
      show ?thesis
      proof (cases "map_of column_names b")
        case None
        with Some e have "b = t" "(a, t) \<in> set column_names"
          by (auto simp: nm_def dest: map_of_SomeD)
        with nc b show ?thesis by force
      next
        case (Some u)
        with \<open>map_of column_names a = Some t\<close> e have "u = t" by (simp add: nm_def)
        with Some \<open>map_of column_names a = Some t\<close> show ?thesis
          by (auto intro: map_of_inj_targets [OF d])
      qed
    qed
  qed
  have c: "cols (rename raw column_names) = map (\<lambda>p. (nm (fst p), snd p)) (cols raw)"
    by (simp add: rename_def nm_def)
  have "distinct (map nm (map fst (cols raw)))"
    using wf inj by (simp add: distinct_map wf_frame_def del: map_map)
  then have "distinct (map fst (cols (rename raw column_names)))"
    by (simp add: c comp_def)
  moreover have "list_all (\<lambda>p. length (snd p) = length (index raw)) (cols (rename raw column_names))"
    using wf by (simp add: c wf_frame_def list_all_iff)
  ultimately show ?thesis using wf by (simp add: wf_frame_def)
qed

lemma getitem_present:
  assumes "wf_frame df" and "c \<in> fst ` set (cols df)"
  shows "\<exists>xs. getitem df c = Inr xs"
proof -
  from assms(2) have "filter (\<lambda>p. fst p = c) (cols df) \<noteq> []"
    by (auto simp: filter_empty_conv)
  moreover from assms(1) have "length (filter (\<lambda>p. fst p = c) (cols df)) \<le> 1"
    by (intro distinct_count_le1) (simp add: wf_frame_def)
  ultimately show ?thesis
    by (cases "filter (\<lambda>p. fst p = c) (cols df)" rule: list.exhaust)
       (auto simp: getitem_def split: list.splits)
qed

lemma rename_present:
  assumes "(s, c) \<in> set column_names" and "s \<in> fst ` set (cols raw)"
  shows "c \<in> fst ` set (cols (rename raw column_names))"
proof -
  have "distinct (map fst column_names)" by (simp add: column_names_def)
  with assms(1) have "map_of column_names s = Some c" by simp
  with assms(2) show ?thesis by (force simp: rename_def)
qed

text \<open>
  A sheet with the nine source columns, and none under a name of the code, loads (when
  its dates convert) into a well-formed table with the twelve columns of the code.
\<close>

lemma load_data_schema:
  assumes wf: "wf_frame raw"
    and nc: "\<forall>c \<in> snd ` set column_names. c \<notin> fst ` set (cols raw)"
    and sc: "\<forall>s \<in> fst ` set column_names. s \<in> fst ` set (cols raw)"
    and ld: "load_data to_stamp to_num na raw = Inr df"
  shows "wf_frame df \<and>
         has_cols df [''data_venda'', ''data_nf'', ''cliente'', ''vendedor'', ''tipo_solucao'',
           ''descricao_projeto'', ''valor_venda'', ''os'', ''proposta'', ''ano'', ''mes'', ''ano_mes'']"
proof -
  let ?d0 = "rename raw column_names"
  have wf0: "wf_frame ?d0" by (rule wf_rename [OF wf nc])
  from load_data_Inr [OF ld wf0] obtain dv nf vv where
    l: "wf_frame df" "getitem df ''data_venda'' = Inr dv" "getitem df ''data_nf'' = Inr nf"
       "getitem df ''valor_venda'' = Inr vv" "getitem df ''ano'' = Inr (map dt_year dv)"
       "getitem df ''mes'' = Inr (map dt_month dv)" "getitem df ''ano_mes'' = Inr (map (to_period_str na) dv)"
    by blast
  from ld obtain a b c' where
    df: "df = setitem (setitem (setitem (setitem (setitem (setitem ?d0 ''data_venda'' a) ''data_nf'' b)
            ''valor_venda'' c') ''ano'' (map dt_year a)) ''mes'' (map dt_month a))
            ''ano_mes'' (map (to_period_str na) a)"
    by (auto simp: load_data_def Let_def bind_Inr_iff getitem_setitem_other getitem_setitem_same)
  have p: "\<exists>xs. getitem ?d0 c = Inr xs" if s: "(s, c) \<in> set column_names" for s c
  proof -
    from s sc have "s \<in> fst ` set (cols raw)" by force
    from getitem_present [OF wf0 rename_present [OF s this]] show ?thesis .
  qed
  have e: "getitem df c = getitem ?d0 c"
    if "c \<noteq> ''data_venda''" "c \<noteq> ''data_nf''" "c \<noteq> ''valor_venda''"
       "c \<noteq> ''ano''" "c \<noteq> ''mes''" "c \<noteq> ''ano_mes''" for c
    using that by (simp add: df getitem_setitem_other)
  have "\<exists>xs. getitem df ''cliente'' = Inr xs"
    using p [of "''Cliente''" "''cliente''"] e [of "''cliente''"] by (simp add: column_names_def)
  moreover have "\<exists>xs. getitem df ''vendedor'' = Inr xs"
    using p [of "''Vendedor Respons'' @ [CHR 0xC3, CHR 0xA1] @ ''vel''" "''vendedor''"]
      e [of "''vendedor''"] by (simp add: column_names_def)
  moreover have "\<exists>xs. getitem df ''tipo_solucao'' = Inr xs"
    using p [of "''Tipo de Solu'' @ [CHR 0xC3, CHR 0xA7, CHR 0xC3, CHR 0xA3] @ ''o''" "''tipo_solucao''"]
      e [of "''tipo_solucao''"] by (simp add: column_names_def)
  moreover have "\<exists>xs. getitem df ''descricao_projeto'' = Inr xs"
    using p [of "''Descri'' @ [CHR 0xC3, CHR 0xA7, CHR 0xC3, CHR 0xA3] @ ''o do Projeto''" "''descricao_projeto''"]
      e [of "''descricao_projeto''"] by (simp add: column_names_def)
  moreover have "\<exists>xs. getitem df ''os'' = Inr xs"
    using p [of "''OS.''" "''os''"] e [of "''os''"] by (simp add: column_names_def)
  moreover have "\<exists>xs. getitem df ''proposta'' = Inr xs"
    using p [of "''Proposta''" "''proposta''"] e [of "''proposta''"] by (simp add: column_names_def)
  ultimately show ?thesis using l by (auto simp: has_cols_def)
qed

subsection \<open>Lemmas: the filter\<close>

lemma rows_take_rows: "rows (take_rows df ps) = map (row_at df) ps"
  by (rule nth_equalityI) (simp_all add: rows_def take_rows_def row_at_def)

lemma index_take_rows [simp]: "index (take_rows df ps) = map ((!) (index df)) ps"
  by (simp add: take_rows_def)

lemma length_rows [simp]: "length (rows df) = length (index df)"
  by (simp add: rows_def)

lemma map_of_unique: "filter (\<lambda>p. fst p = c) ps = [p] \<Longrightarrow> map_of ps c = Some (snd p)"
proof (induction ps)
  case Nil
  then show ?case by simp
next
  case (Cons q ps)
  then show ?case by (cases q) (auto split: if_splits)
qed

lemma map_of_map_snd: "map_of (map (\<lambda>p. (fst p, f (snd p))) ps) c = map_option f (map_of ps c)"
  by (induction ps) auto

lemma field_row_at: "getitem df c = Inr xs \<Longrightarrow> field (row_at df i) c = Some (xs ! i)"
proof -
  assume "getitem df c = Inr xs"
  then obtain p where p: "filter (\<lambda>p. fst p = c) (cols df) = [p]" "snd p = xs"
    by (auto simp: getitem_def split: list.splits)
  show ?thesis
    using map_of_map_snd [of "\<lambda>xs. xs ! i" "cols df" c] map_of_unique [OF p(1)] p(2)
    by (simp add: field_def row_at_def)
qed

lemma filter_rows: "filter P (rows df) = map (row_at df) (filter (\<lambda>i. P (row_at df i)) [0..<length (index df)])"
  by (simp add: rows_def filter_map comp_def)

lemma length_mask_and [simp]: "length (mask_and a b) = min (length a) (length b)"
  by (simp add: mask_and_def)

lemma nth_mask_and: "i < length a \<Longrightarrow> i < length b \<Longrightarrow> mask_and a b ! i = (a ! i \<and> b ! i)"
  by (simp add: mask_and_def)

lemma length_isin [simp]: "length (isin xs vals) = length xs"
  by (simp add: isin_def)

lemma nth_isin: "i < length xs \<Longrightarrow> isin xs vals ! i = (xs ! i \<in> set vals)"
  by (simp add: isin_def)

lemma filter_mask_Inr:
  assumes wf: "wf_frame df" and hc: "has_cols df [''ano'', ''vendedor'', ''tipo_solucao'', ''cliente'']"
  shows "\<exists>m. filter_mask df sel = Inr m \<and> length m = length (index df) \<and>
           (\<forall>i < length (index df). m ! i = qualifies sel (row_at df i))"
proof -
  from hc obtain a v t c where
    g: "getitem df ''ano'' = Inr a" "getitem df ''vendedor'' = Inr v"
       "getitem df ''tipo_solucao'' = Inr t" "getitem df ''cliente'' = Inr c"
    by (auto simp: has_cols_def split: sum.splits)
  note l = g [THEN getitem_length [OF wf]]
  show ?thesis
    using l by (simp add: filter_mask_def g qualifies_def member_def field_row_at [OF g(1)]
        field_row_at [OF g(2)] field_row_at [OF g(3)] field_row_at [OF g(4)] nth_mask_and nth_isin)
qed

lemma df_filtrado_rows:
  assumes wf: "wf_frame df" and hc: "has_cols df [''ano'', ''vendedor'', ''tipo_solucao'', ''cliente'']"
  shows "\<exists>sub. df_filtrado df sel = Inr sub \<and> rows sub = filter (qualifies sel) (rows df)"
proof -
  from filter_mask_Inr [OF wf hc] obtain m where
    m: "filter_mask df sel = Inr m" "length m = length (index df)"
       "\<forall>i < length (index df). m ! i = qualifies sel (row_at df i)"
    by blast
  have "nonzero m = filter (\<lambda>i. qualifies sel (row_at df i)) [0..<length (index df)]"
    unfolding nonzero_def using m(2,3) by (auto intro: filter_cong)
  then have "rows (getitem_mask df m) = filter (qualifies sel) (rows df)"
    by (simp add: getitem_mask_def rows_take_rows filter_rows)
  then show ?thesis by (simp add: df_filtrado_def m(1) copy_def)
qed

subsection \<open>Lemmas: sorting\<close>

lemma argsort_ok_set: "argsort_ok f \<Longrightarrow> set (f xs) = {0..<length xs}"
proof -
  assume "argsort_ok f"
  then have "mset (f xs) = mset [0..<length xs]" by (simp add: argsort_ok_def)
  then have "set (f xs) = set [0..<length xs]" by (rule mset_eq_setD)
  then show ?thesis by simp
qed

lemma mset_map_nth:
  assumes "mset ps = mset [0..<length xs]"
  shows "mset (map ((!) xs) ps) = mset xs"
proof -
  have "mset (map ((!) xs) ps) = image_mset ((!) xs) (mset ps)" by simp
  also have "\<dots> = image_mset ((!) xs) (mset [0..<length xs])" by (simp only: assms)
  also have "\<dots> = mset (map ((!) xs) [0..<length xs])" by simp
  also have "\<dots> = mset xs" by (simp only: map_nth)
  finally show ?thesis .
qed

lemma mset_filter_split:
  "(\<And>x. Q x = (\<not> P x)) \<Longrightarrow> mset (filter P xs) + mset (filter Q xs) = mset xs"
  by (induction xs) auto

lemma no_blank_nth: "Blank \<notin> set items \<Longrightarrow> i < length items \<Longrightarrow> items ! i \<noteq> Blank"
  using nth_mem by metis

lemma nargsort_mset:
  assumes ok: "argsort_ok f"
  shows "mset (nargsort f items asc) = mset [0..<length items]"
proof -
  define A where "A = filter (\<lambda>i. items ! i \<noteq> Blank) [0..<length items]"
  define B where "B = filter (\<lambda>i. items ! i = Blank) [0..<length items]"
  have part: "mset A + mset B = mset [0..<length items]"
    unfolding A_def B_def by (rule mset_filter_split) simp
  have perm: "mset (f ys) = mset [0..<length ys]" for ys
    using ok by (simp add: argsort_ok_def)
  have up: "mset (map ((!) A) (f (map ((!) items) A))) = mset A"
    by (rule mset_map_nth) (simp add: perm)
  have down: "mset (map ((!) (rev A)) (f (rev (map ((!) items) A)))) = mset A"
    using mset_map_nth [of "f (rev (map ((!) items) A))" "rev A"] by (simp add: perm)
  have "nargsort f items asc =
      (if asc then map ((!) A) (f (map ((!) items) A))
       else rev (map ((!) (rev A)) (f (rev (map ((!) items) A))))) @ B"
    by (simp add: nargsort_def Let_def A_def B_def)
  then show ?thesis using up down part by (simp del: mset_map)
qed

lemma nargsort_set: "argsort_ok f \<Longrightarrow> set (nargsort f items asc) = {0..<length items}"
  using mset_eq_setD [OF nargsort_mset, of f items asc] by simp

lemma nargsort_distinct: "argsort_ok f \<Longrightarrow> distinct (nargsort f items asc)"
  using mset_eq_imp_distinct_iff [OF nargsort_mset, of f items asc] by simp

lemma nargsort_asc:
  assumes ok: "argsort_ok f" and nb: "Blank \<notin> set items"
  shows "sorted (map (\<lambda>i. cell_key (items ! i)) (nargsort f items True))"
proof -
  have all: "filter (\<lambda>i. items ! i \<noteq> Blank) [0..<length items] = [0..<length items]"
    using nb by (auto simp: filter_id_conv no_blank_nth)
  have none: "filter (\<lambda>i. items ! i = Blank) [0..<length items] = []"
    using nb by (auto simp: filter_empty_conv no_blank_nth)
  have "map ((!) [0..<length items]) (f items) = f items"
    using argsort_ok_set [OF ok, of items] by (intro map_idI) auto
  then have "nargsort f items True = f items"
    by (simp add: nargsort_def Let_def all none map_nth)
  then show ?thesis using ok by (simp add: argsort_ok_def)
qed

lemma nargsort_desc:
  assumes ok: "argsort_ok f" and nb: "Blank \<notin> set items"
  shows "sorted (rev (map (\<lambda>i. cell_key (items ! i)) (nargsort f items False)))"
proof -
  let ?n = "length items"
  have all: "filter (\<lambda>i. items ! i \<noteq> Blank) [0..<?n] = [0..<?n]"
    using nb by (auto simp: filter_id_conv no_blank_nth)
  have none: "filter (\<lambda>i. items ! i = Blank) [0..<?n] = []"
    using nb by (auto simp: filter_empty_conv no_blank_nth)
  have eq: "nargsort f items False = rev (map ((!) (rev [0..<?n])) (f (rev items)))"
    by (simp add: nargsort_def Let_def all none map_nth)
  have m: "map (\<lambda>i. cell_key (items ! i)) (map ((!) (rev [0..<?n])) (f (rev items)))
      = map (\<lambda>j. cell_key (rev items ! j)) (f (rev items))"
  proof (rule nth_equalityI)
    show "length (map (\<lambda>i. cell_key (items ! i)) (map ((!) (rev [0..<?n])) (f (rev items))))
        = length (map (\<lambda>j. cell_key (rev items ! j)) (f (rev items)))" by simp
  next
    fix k assume "k < length (map (\<lambda>i. cell_key (items ! i)) (map ((!) (rev [0..<?n])) (f (rev items))))"
    then have k: "k < length (f (rev items))" by simp
    then have "f (rev items) ! k \<in> set (f (rev items))" by simp
    then have j: "f (rev items) ! k < ?n" using argsort_ok_set [OF ok, of "rev items"] by simp
    then show "map (\<lambda>i. cell_key (items ! i)) (map ((!) (rev [0..<?n])) (f (rev items))) ! k
        = map (\<lambda>j. cell_key (rev items ! j)) (f (rev items)) ! k"
      using k by (simp add: rev_nth)
  qed
  have s: "sorted (map (\<lambda>j. cell_key (rev items ! j)) (f (rev items)))"
    using ok by (simp add: argsort_ok_def)
  have "rev (map (\<lambda>i. cell_key (items ! i)) (nargsort f items False))
      = map (\<lambda>i. cell_key (items ! i)) (map ((!) (rev [0..<?n])) (f (rev items)))"
    by (simp only: eq rev_map rev_rev_ident)
  with m s show ?thesis by (simp only:)
qed

lemma insort_key_ties:
  fixes k :: "nat \<times> cell \<Rightarrow> 'k::linorder"
  assumes "sorted_wrt (\<lambda>p q. k p \<le> k q \<and> (k p = k q \<longrightarrow> fst p < fst q)) S"
    and "\<forall>y \<in> set S. fst x < fst y"
  shows "sorted_wrt (\<lambda>p q. k p \<le> k q \<and> (k p = k q \<longrightarrow> fst p < fst q)) (insort_key k x S)"
  using assms
proof (induction S)
  case Nil
  then show ?case by simp
next
  case (Cons y S)
  show ?case
  proof (cases "k x \<le> k y")
    case True
    with Cons.prems show ?thesis by (auto intro: order_trans)
  next
    case False
    with Cons show ?thesis by (auto simp: set_insort_key)
  qed
qed

lemma sort_key_ties:
  fixes k :: "nat \<times> cell \<Rightarrow> 'k::linorder"
  assumes "sorted_wrt (\<lambda>p q. fst p < fst q) L"
  shows "sorted_wrt (\<lambda>p q. k p \<le> k q \<and> (k p = k q \<longrightarrow> fst p < fst q)) (sort_key k L)"
  using assms
proof (induction L)
  case Nil
  then show ?case by simp
next
  case (Cons x L)
  then show ?case by (auto intro!: insort_key_ties)
qed

lemma sorted_wrt_enumerate: "sorted_wrt (\<lambda>p q. fst p < fst q) (enumerate n xs)"
  by (induction xs arbitrary: n) (auto simp: in_set_enumerate_eq)

lemma argsort_stable_stable: "stable argsort_stable"
  unfolding stable_def
proof
  fix xs :: "cell list"
  let ?S = "sort_key (\<lambda>p. cell_key (snd p)) (enumerate 0 xs)"
  have s: "sorted_wrt (\<lambda>p q. cell_key (snd p) \<le> cell_key (snd q) \<and>
             (cell_key (snd p) = cell_key (snd q) \<longrightarrow> fst p < fst q)) ?S"
    by (rule sort_key_ties) (rule sorted_wrt_enumerate)
  have e: "snd p = xs ! fst p" if "p \<in> set ?S" for p
    using that by (auto simp: in_set_enumerate_eq)
  have "sorted_wrt (\<lambda>p q. cell_key (xs ! fst p) = cell_key (xs ! fst q) \<longrightarrow> fst p < fst q) ?S"
    using s by (rule sorted_wrt_mono_rel [rotated]) (auto simp: e)
  then show "sorted_wrt (\<lambda>a b. cell_key (xs ! a) = cell_key (xs ! b) \<longrightarrow> a < b) (argsort_stable xs)"
    by (simp add: argsort_stable_def sorted_wrt_map)
qed

lemma nargsort_desc_ties:
  assumes ok: "argsort_ok f" and st: "stable f" and nb: "Blank \<notin> set items"
  shows "sorted_wrt (\<lambda>i j. cell_key (items ! i) = cell_key (items ! j) \<longrightarrow> i < j)
           (nargsort f items False)"
proof -
  let ?n = "length items"
  have all: "filter (\<lambda>i. items ! i \<noteq> Blank) [0..<?n] = [0..<?n]"
    using nb by (auto simp: filter_id_conv no_blank_nth)
  have none: "filter (\<lambda>i. items ! i = Blank) [0..<?n] = []"
    using nb by (auto simp: filter_empty_conv no_blank_nth)
  have eq: "nargsort f items False = rev (map ((!) (rev [0..<?n])) (f (rev items)))"
    by (simp add: nargsort_def Let_def all none map_nth)
  have b: "a < ?n" if "a \<in> set (f (rev items))" for a
    using that argsort_ok_set [OF ok, of "rev items"] by simp
  from st have "sorted_wrt (\<lambda>a b. cell_key (rev items ! a) = cell_key (rev items ! b) \<longrightarrow> a < b)
      (f (rev items))"
    by (simp add: stable_def)
  then have "sorted_wrt (\<lambda>a b. cell_key (items ! (rev [0..<?n] ! b)) = cell_key (items ! (rev [0..<?n] ! a))
        \<longrightarrow> rev [0..<?n] ! b < rev [0..<?n] ! a) (f (rev items))"
  proof (rule sorted_wrt_mono_rel [rotated])
    fix a c assume "a \<in> set (f (rev items))" "c \<in> set (f (rev items))"
      and h: "cell_key (rev items ! a) = cell_key (rev items ! c) \<longrightarrow> a < c"
    then have "a < ?n" "c < ?n" by (auto dest: b)
    with h show "cell_key (items ! (rev [0..<?n] ! c)) = cell_key (items ! (rev [0..<?n] ! a))
        \<longrightarrow> rev [0..<?n] ! c < rev [0..<?n] ! a"
      by (auto simp: rev_nth)
  qed
  then show ?thesis by (simp add: eq sorted_wrt_rev sorted_wrt_map)
qed

subsection \<open>Lemmas: grouped sums\<close>

lemma argsort_ok_enum:
  assumes s: "\<And>xs. set (L xs) = set (enumerate 0 xs)" and m: "\<And>xs. mset (L xs) = mset (enumerate 0 xs)"
  shows "argsort_ok (\<lambda>xs. map fst (sort_key (\<lambda>p. cell_key (snd p)) (L xs)))"
  unfolding argsort_ok_def
proof (intro allI conjI)
  fix xs :: "cell list"
  let ?S = "sort_key (\<lambda>p. cell_key (snd p)) (L xs)"
  have "mset (map fst ?S) = image_mset fst (mset (L xs))" by simp
  also have "\<dots> = mset (map fst (enumerate 0 xs))" by (simp only: m mset_map)
  also have "\<dots> = mset [0..<length xs]" by (simp only: map_fst_enumerate add_0)
  finally show "mset (map fst ?S) = mset [0..<length xs]" .
  have "map (\<lambda>i. cell_key (xs ! i)) (map fst ?S) = map (\<lambda>p. cell_key (snd p)) ?S"
    by (auto simp: s in_set_enumerate_eq)
  then show "sorted (map (\<lambda>i. cell_key (xs ! i)) (map fst ?S))"
    by (simp only: sorted_sort_key)
qed

lemma argsort_stable_ok: "argsort_ok argsort_stable"
  unfolding argsort_stable_def by (rule argsort_ok_enum) simp_all

lemma getitem_take_rows:
  "getitem df c = Inr xs \<Longrightarrow> getitem (take_rows df ps) c = Inr (map ((!) xs) ps)"
  by (auto simp: getitem_def take_rows_def filter_map comp_def split: list.splits)

lemma wf_take_rows:
  assumes wf: "wf_frame df" and d: "distinct ps" and b: "set ps \<subseteq> {0..<length (index df)}"
  shows "wf_frame (take_rows df ps)"
proof -
  have "inj_on ((!) (index df)) (set ps)"
  proof (rule inj_onI)
    fix i j assume "i \<in> set ps" "j \<in> set ps" and e: "index df ! i = index df ! j"
    with b have "i < length (index df)" "j < length (index df)" by auto
    with wf e show "i = j" by (simp add: wf_frame_def nth_eq_iff_index_eq)
  qed
  then have "distinct (map ((!) (index df)) ps)" using d by (simp add: distinct_map)
  then show ?thesis using wf by (simp add: wf_frame_def take_rows_def comp_def list_all_iff)
qed

lemma sort_values_Inr:
  assumes ok: "argsort_ok f" and wf: "wf_frame g" and gb: "getitem g c = Inr xs"
  shows "sort_values f g c asc = Inr (take_rows g (nargsort f xs asc))"
    and "wf_frame (take_rows g (nargsort f xs asc))"
    and "mset (rows (take_rows g (nargsort f xs asc))) = mset (rows g)"
proof -
  have n: "length xs = length (index g)" by (rule getitem_length [OF wf gb])
  show "sort_values f g c asc = Inr (take_rows g (nargsort f xs asc))"
    by (simp add: sort_values_def gb)
  show "wf_frame (take_rows g (nargsort f xs asc))"
    using nargsort_distinct [OF ok] nargsort_set [OF ok, of xs asc] n
    by (intro wf_take_rows [OF wf]) simp_all
  have "mset (rows (take_rows g (nargsort f xs asc)))
      = image_mset (row_at g) (mset (nargsort f xs asc))"
    by (simp add: rows_take_rows)
  also have "\<dots> = image_mset (row_at g) (mset [0..<length (index g)])"
    by (simp only: nargsort_mset [OF ok] n)
  also have "\<dots> = mset (rows g)" by (simp add: rows_def)
  finally show "mset (rows (take_rows g (nargsort f xs asc))) = mset (rows g)" .
qed

lemma set_unique [simp]: "set (unique xs) = set xs"
  by (simp add: unique_def)

lemma distinct_unique [simp]: "distinct (unique xs)"
  by (simp add: unique_def)

lemma set_dropna [simp]: "set (dropna xs) = set xs - {Blank}"
  by (auto simp: dropna_def)

lemma set_group_keys: "set (group_keys ks) = set ks - {Blank}"
  by (simp add: group_keys_def)

lemma distinct_group_keys: "distinct (group_keys ks)"
  by (simp add: group_keys_def)

lemma sorted_group_keys: "sorted (map cell_key (group_keys ks))"
  by (simp add: group_keys_def)

lemma groupby_sum_Inr:
  assumes "getitem sub k = Inr ks" "getitem sub v = Inr vs" "k \<noteq> v"
  shows "groupby_sum gsum sub k v = Inr (grouped gsum k v ks vs)"
    and "wf_frame (grouped gsum k v ks vs)"
    and "getitem (grouped gsum k v ks vs) k = Inr (group_keys ks)"
    and "getitem (grouped gsum k v ks vs) v = Inr (map (\<lambda>g. Num (group_total gsum ks vs g)) (group_keys ks))"
  using assms by (simp_all add: groupby_sum_def grouped_def Let_def wf_frame_def getitem_def)

text \<open>The sums when nothing rounds.\<close>

lemma sum_list_present: "sum_list (present xs) = sum_list (fillna0 xs)"
  by (induction xs) (simp_all add: present_def fillna0_def split: cell.splits)

lemma sum_skipna_exact: "sum_skipna sum_list xs = sum_list (fillna0 xs)"
  by (simp add: sum_skipna_def fillna0_def)

lemma group_total_exact: "group_total sum_list ks vs g = sum_list (fillna0 (group_values ks vs g))"
  by (simp add: group_total_def Let_def sum_list_present [symmetric])

lemma sum_list_delta0:
  fixes x :: rat
  shows "k \<notin> set K \<Longrightarrow> sum_list (map (\<lambda>g. if k = g then x else 0) K) = 0"
  by (induction K) auto

lemma sum_list_delta:
  fixes x :: rat
  shows "distinct K \<Longrightarrow> k \<in> set K \<Longrightarrow> sum_list (map (\<lambda>g. if k = g then x else 0) K) = x"
  by (induction K) (auto simp: sum_list_delta0)

lemma group_total_Cons:
  "group_total sum_list (k # ks) (v # vs) g =
     (if k = g then (case v of Num r \<Rightarrow> r | _ \<Rightarrow> 0) else 0) + group_total sum_list ks vs g"
  by (simp add: group_total_exact group_values_def fillna0_def)

lemma group_totals_sum:
  "length ks = length vs \<Longrightarrow> distinct K \<Longrightarrow> set ks \<subseteq> set K \<Longrightarrow>
   sum_list (map (group_total sum_list ks vs) K) = sum_skipna sum_list vs"
proof (induction ks vs rule: list_induct2)
  case Nil
  then show ?case by (simp add: group_total_exact group_values_def sum_skipna_def fillna0_def)
next
  case (Cons k ks v vs)
  have "group_total sum_list (k # ks) (v # vs)
      = (\<lambda>g. (if k = g then (case v of Num r \<Rightarrow> r | _ \<Rightarrow> 0) else 0) + group_total sum_list ks vs g)"
    by (rule ext) (rule group_total_Cons)
  then have "sum_list (map (group_total sum_list (k # ks) (v # vs)) K)
      = sum_list (map (\<lambda>g. if k = g then (case v of Num r \<Rightarrow> r | _ \<Rightarrow> 0) else 0) K)
        + sum_list (map (group_total sum_list ks vs) K)"
    by (simp only: sum_list_addf)
  also have "\<dots> = (case v of Num r \<Rightarrow> r | _ \<Rightarrow> 0) + sum_skipna sum_list vs"
    using Cons by (simp add: sum_list_delta)
  finally show ?case by (simp add: sum_skipna_exact fillna0_def)
qed

text \<open>Every row whose key is among the keys \<open>K\<close> is in exactly one group.\<close>

lemma group_values_Cons:
  "group_values (k # ks) (v # vs) g = (if k = g then [v] else []) @ group_values ks vs g"
  by (simp add: group_values_def)

lemma mset_concat_delta0:
  "k \<notin> set K \<Longrightarrow> mset (concat (map (\<lambda>g. (if k = g then [v] else []) @ f g) K)) = mset (concat (map f K))"
  by (induction K) auto

lemma mset_concat_delta:
  "distinct K \<Longrightarrow> k \<in> set K \<Longrightarrow>
   mset (concat (map (\<lambda>g. (if k = g then [v] else []) @ f g) K)) = {#v#} + mset (concat (map f K))"
  by (induction K) (auto simp: mset_concat_delta0)

lemma group_values_partition:
  "length ks = length vs \<Longrightarrow> distinct K \<Longrightarrow> set ks \<subseteq> set K \<Longrightarrow>
   mset (concat (map (group_values ks vs) K)) = mset vs"
proof (induction ks vs rule: list_induct2)
  case Nil
  then show ?case by (simp add: group_values_def)
next
  case (Cons k ks v vs)
  have "group_values (k # ks) (v # vs) = (\<lambda>g. (if k = g then [v] else []) @ group_values ks vs g)"
    by (rule ext) (rule group_values_Cons)
  moreover have "mset (concat (map (\<lambda>g. (if k = g then [v] else []) @ group_values ks vs g) K))
      = {#v#} + mset (concat (map (group_values ks vs) K))"
    using Cons.prems by (intro mset_concat_delta) simp_all
  ultimately have "mset (concat (map (group_values (k # ks) (v # vs)) K))
      = {#v#} + mset (concat (map (group_values ks vs) K))"
    by (simp only:)
  with Cons show ?case by simp
qed

lemma rows_in_groups_no_blank:
  assumes wf: "wf_frame sub" and gk: "getitem sub k = Inr ks"
    and gv: "getitem sub ''valor_venda'' = Inr vs" and nb: "Blank \<notin> set ks"
  shows "rows_in_groups sub k"
proof -
  have "length ks = length vs"
    using getitem_length [OF wf gk] getitem_length [OF wf gv] by simp
  moreover have "set ks \<subseteq> set (group_keys ks)" using nb by (auto simp: set_group_keys)
  ultimately have "mset (concat (map (group_values ks vs) (group_keys ks))) = mset vs"
    by (intro group_values_partition distinct_group_keys)
  then show ?thesis by (simp add: rows_in_groups_def gk gv)
qed

lemma sum_skipna_mset: "mset xs = mset ys \<Longrightarrow> sum_skipna sum_list xs = sum_skipna sum_list ys"
proof -
  assume "mset xs = mset ys"
  then have "mset (fillna0 xs) = mset (fillna0 ys)"
    by (simp add: fillna0_def)
  then have "sum_mset (mset (fillna0 xs)) = sum_mset (mset (fillna0 ys))"
    by (simp only:)
  then show ?thesis by (simp only: sum_skipna_exact sum_mset_sum_list)
qed

lemma sum_skipna_Num: "sum_skipna sum_list (map (\<lambda>g. Num (h g)) K) = sum_list (map h K)"
  by (simp add: sum_skipna_exact fillna0_def comp_def)

lemma total_vendas_take_rows:
  assumes g: "getitem t ''valor_venda'' = Inr xs" and p: "mset ps = mset [0..<length xs]"
  shows "total_vendas sum_list (take_rows t ps) = Inr (sum_skipna sum_list xs)"
proof -
  have "sum_skipna sum_list (map ((!) xs) ps) = sum_skipna sum_list xs"
    by (rule sum_skipna_mset) (rule mset_map_nth [OF p])
  then show ?thesis by (simp add: total_vendas_def getitem_take_rows [OF g])
qed

lemma Blank_notin_sums: "Blank \<notin> set (map (\<lambda>g. Num (h g)) K)"
  by auto

text \<open>Grouping by \<open>k\<close>, then sorting by \<open>c\<close>, which is the key or the value.\<close>
lemma grouped_then_sorted:
  assumes ok: "argsort_ok f"
    and gk: "getitem sub k = Inr ks" and gv: "getitem sub ''valor_venda'' = Inr vs"
    and kv: "k \<noteq> ''valor_venda''" and c: "c = k \<or> c = ''valor_venda''"
  shows "\<exists>s xs. bind (groupby_sum gsum sub k ''valor_venda'') (\<lambda>g. sort_values f g c asc) = Inr s \<and>
           wf_frame s \<and> mset (rows s) = mset (rows (grouped gsum k ''valor_venda'' ks vs)) \<and>
           getitem s c = Inr xs \<and>
           sorted (if asc then map cell_key xs else rev (map cell_key xs)) \<and>
           total_vendas sum_list s = Inr (sum_list (map (group_total gsum ks vs) (group_keys ks)))"
proof -
  let ?g = "grouped gsum k ''valor_venda'' ks vs"
  let ?sums = "map (\<lambda>g. Num (group_total gsum ks vs g)) (group_keys ks)"
  note G = groupby_sum_Inr [OF gk gv kv, of gsum]
  have "\<exists>ys. getitem ?g c = Inr ys \<and> Blank \<notin> set ys"
  proof (cases "c = k")
    case True
    then show ?thesis using G(3) set_group_keys [of ks] by simp
  next
    case False
    with c have "c = ''valor_venda''" by simp
    then show ?thesis using G(4) Blank_notin_sums by blast
  qed
  then obtain ys where gc: "getitem ?g c = Inr ys" and nb: "Blank \<notin> set ys" by blast
  let ?p = "nargsort f ys asc"
  note S = sort_values_Inr [OF ok G(2) gc, of asc]
  have n: "length ys = length ?sums"
    using getitem_length [OF G(2) gc] getitem_length [OF G(2) G(4)] by simp
  have srt: "sorted (if asc then map cell_key (map ((!) ys) ?p) else rev (map cell_key (map ((!) ys) ?p)))"
    using nargsort_asc [OF ok nb] nargsort_desc [OF ok nb] by (cases asc) (simp_all add: comp_def)
  have tv: "total_vendas sum_list (take_rows ?g ?p) = Inr (sum_skipna sum_list ?sums)"
    by (rule total_vendas_take_rows [OF G(4)]) (simp only: nargsort_mset [OF ok] n)
  show ?thesis
    using S srt tv getitem_take_rows [OF gc, of ?p]
    by (simp add: G(1) sum_skipna_Num)
qed

lemma take_upt0: "take n [0..<k] = [0..<min n k]"
  by (cases "n \<le> k") (simp_all add: min_def)

lemma nth_upt_take: "map ((!) xs) [0..<min n (length xs)] = take n xs"
proof -
  have "take n xs = take n (map ((!) xs) [0..<length xs])" by (simp only: map_nth)
  also have "\<dots> = map ((!) xs) (take n [0..<length xs])" by (simp only: take_map)
  finally show ?thesis by (simp only: take_upt0)
qed

lemma rows_head: "rows (head n s) = take n (rows s)"
proof -
  have "rows (head n s) = map (row_at s) [0..<min n (length (index s))]"
    by (simp only: head_def rows_take_rows)
  also have "\<dots> = map (row_at s) (take n [0..<length (index s)])"
    by (simp only: take_upt0)
  also have "\<dots> = take n (rows s)" by (simp only: rows_def take_map)
  finally show ?thesis .
qed

lemma getitem_head:
  assumes "wf_frame s" and "getitem s c = Inr xs"
  shows "getitem (head n s) c = Inr (take n xs)"
  using getitem_take_rows [OF assms(2), of "[0..<min n (length (index s))]"]
    getitem_length [OF assms] nth_upt_take [of xs n]
  by (simp add: head_def)

lemma descending_by_head:
  assumes "wf_frame s" and "descending_by s c"
  shows "descending_by (head n s) c"
proof -
  from assms(2) obtain xs where g: "getitem s c = Inr xs" and s: "sorted (rev (map cell_key xs))"
    by (auto simp: descending_by_def split: sum.splits)
  have "rev (map cell_key (take n xs)) = drop (length xs - n) (rev (map cell_key xs))"
    by (simp add: take_map [symmetric] rev_take)
  with s have "sorted (rev (map cell_key (take n xs)))"
    by (simp only: sorted_wrt_drop)
  then show ?thesis by (simp add: descending_by_def getitem_head [OF assms(1) g])
qed

lemma total_vendas_head:
  assumes "wf_frame s" and "total_vendas fsum s = Inr x" and "qtd_vendas s \<le> n"
  shows "total_vendas fsum (head n s) = Inr x"
proof -
  from assms(2) obtain xs where g: "getitem s ''valor_venda'' = Inr xs" and x: "x = sum_skipna fsum xs"
    by (auto simp: total_vendas_def bind_Inr_iff)
  from assms(3) getitem_length [OF assms(1) g] have "take n xs = xs"
    by (simp add: qtd_vendas_def)
  then show ?thesis by (simp add: total_vendas_def getitem_head [OF assms(1) g] x)
qed

lemma df_filtrado_take_rows:
  assumes wf: "wf_frame df"
    and hc: "has_cols df [''ano'', ''vendedor'', ''tipo_solucao'', ''cliente'']"
    and fl: "df_filtrado df sel = Inr sub"
  shows "\<exists>ps. sub = take_rows df ps \<and> wf_frame sub \<and>
           (\<forall>i \<in> set ps. i < length (index df) \<and> qualifies sel (row_at df i))"
proof -
  from filter_mask_Inr [OF wf hc] obtain m where
    m1: "filter_mask df sel = Inr m" and m2: "length m = length (index df)"
    and m3: "\<forall>i < length (index df). m ! i = qualifies sel (row_at df i)"
    by blast
  from fl m1 have sub: "sub = take_rows df (nonzero m)"
    by (simp add: df_filtrado_def copy_def getitem_mask_def)
  have b: "\<forall>i \<in> set (nonzero m). i < length (index df) \<and> qualifies sel (row_at df i)"
  proof
    fix i assume "i \<in> set (nonzero m)"
    then have i: "i < length m" "m ! i" by (simp_all add: nonzero_def)
    with m2 m3 show "i < length (index df) \<and> qualifies sel (row_at df i)" by metis
  qed
  have d: "distinct (nonzero m)" by (simp add: nonzero_def)
  from b have "set (nonzero m) \<subseteq> {0..<length (index df)}" by auto
  with wf d have "wf_frame (take_rows df (nonzero m))" by (rule wf_take_rows)
  with sub b show ?thesis by blast
qed

lemma filtered_dim_no_blank:
  assumes q: "\<forall>i \<in> set ps. i < length (index df) \<and> qualifies sel (row_at df i)"
    and g: "getitem df (fst d) = Inr xs" and d: "d \<in> set (dims sel)" and nb: "Blank \<notin> set (snd d)"
  shows "Blank \<notin> set (map ((!) xs) ps)"
proof
  assume "Blank \<in> set (map ((!) xs) ps)"
  then obtain i where i: "i \<in> set ps" "xs ! i = Blank" by auto
  with q have "qualifies sel (row_at df i)" by simp
  with d have "member (row_at df i) (fst d) (snd d)"
    by (auto simp: dims_def qualifies_def)
  with field_row_at [OF g, of i] i(2) nb show False by (simp add: member_def)
qed

lemma group_total_when_exact:
  assumes "gsum (present (group_values ks vs g)) = sum_list (present (group_values ks vs g))"
  shows "group_total gsum ks vs g = group_total sum_list ks vs g"
  using assms by (simp add: group_total_def Let_def)

lemma grouped_total_conserved:
  assumes ok: "argsort_ok f" and wf: "wf_frame sub"
    and gk: "getitem sub k = Inr ks" and gv: "getitem sub ''valor_venda'' = Inr vs"
    and kv: "k \<noteq> ''valor_venda''" and c: "c = k \<or> c = ''valor_venda''"
    and nb: "Blank \<notin> set ks"
    and ex: "group_sums_exact gsum sub k"
  shows "\<exists>s. bind (groupby_sum gsum sub k ''valor_venda'') (\<lambda>g. sort_values f g c asc) = Inr s \<and>
           wf_frame s \<and> total_vendas sum_list s = Inr (sum_skipna sum_list vs)"
proof -
  have "length ks = length vs"
    using getitem_length [OF wf gk] getitem_length [OF wf gv] by simp
  moreover have "set ks \<subseteq> set (group_keys ks)" using nb by (auto simp: set_group_keys)
  ultimately have e1: "sum_list (map (group_total sum_list ks vs) (group_keys ks)) = sum_skipna sum_list vs"
    by (intro group_totals_sum distinct_group_keys)
  have e2: "map (group_total gsum ks vs) (group_keys ks) = map (group_total sum_list ks vs) (group_keys ks)"
  proof (rule map_cong [OF refl])
    fix g assume "g \<in> set (group_keys ks)"
    with ex have "gsum (present (group_values ks vs g)) = sum_list (present (group_values ks vs g))"
      by (simp add: group_sums_exact_def gk gv list_all_iff)
    then show "group_total gsum ks vs g = group_total sum_list ks vs g"
      by (rule group_total_when_exact)
  qed
  from grouped_then_sorted [OF ok gk gv kv c, of gsum asc] obtain s where
    s: "bind (groupby_sum gsum sub k ''valor_venda'') (\<lambda>g. sort_values f g c asc) = Inr s"
      "wf_frame s"
      "total_vendas sum_list s = Inr (sum_list (map (group_total gsum ks vs) (group_keys ks)))"
    by blast
  from s(3) have "total_vendas sum_list s = Inr (sum_skipna sum_list vs)"
    by (simp only: e2 e1)
  with s(1,2) show ?thesis by blast
qed

lemma grouped_sorted_ties:
  assumes ok: "argsort_ok f" and st: "stable f"
    and gk: "getitem sub k = Inr ks" and gv: "getitem sub ''valor_venda'' = Inr vs"
    and kv: "k \<noteq> ''valor_venda''"
    and s: "bind (groupby_sum gsum sub k ''valor_venda'') (\<lambda>g. sort_values f g ''valor_venda'' False) = Inr s"
  shows "ties_in_group_order s"
proof -
  let ?g = "grouped gsum k ''valor_venda'' ks vs"
  let ?sums = "map (\<lambda>g. Num (group_total gsum ks vs g)) (group_keys ks)"
  let ?p = "nargsort f ?sums False"
  note G = groupby_sum_Inr [OF gk gv kv, of gsum]
  from s have s': "s = take_rows ?g ?p" by (simp add: G(1) sort_values_def G(4))
  have n: "length ?sums = length (index ?g)" by (rule getitem_length [OF G(2) G(4)])
  have b: "i < length (index ?g)" if "i \<in> set ?p" for i
    using that nargsort_set [OF ok, of ?sums False] n by simp
  have l: "fst (row_at ?g i) = i" if "i < length (index ?g)" for i
    using that by (simp add: row_at_def grouped_def)
  have "sorted_wrt (\<lambda>i j. cell_key (?sums ! i) = cell_key (?sums ! j) \<longrightarrow> i < j) ?p"
    by (rule nargsort_desc_ties [OF ok st]) auto
  then have "sorted_wrt (\<lambda>i j. field (row_at ?g i) ''valor_venda'' = field (row_at ?g j) ''valor_venda''
      \<longrightarrow> fst (row_at ?g i) < fst (row_at ?g j)) ?p"
  proof (rule sorted_wrt_mono_rel [rotated])
    fix i j assume "i \<in> set ?p" "j \<in> set ?p"
      and h: "cell_key (?sums ! i) = cell_key (?sums ! j) \<longrightarrow> i < j"
    then have "i < length (index ?g)" "j < length (index ?g)" by (auto dest: b)
    with h show "field (row_at ?g i) ''valor_venda'' = field (row_at ?g j) ''valor_venda''
      \<longrightarrow> fst (row_at ?g i) < fst (row_at ?g j)"
      by (auto simp: field_row_at [OF G(4)] l)
  qed
  then show ?thesis
    by (simp add: ties_in_group_order_def s' rows_take_rows sorted_wrt_map)
qed

lemma ties_in_group_order_head: "ties_in_group_order s \<Longrightarrow> ties_in_group_order (head n s)"
  by (simp add: ties_in_group_order_def rows_head sorted_wrt_take)

subsection \<open>Lemmas: the script on the store\<close>

lemma dashboard_render:
  "dashboard argsort fsum gsum ticked h df =
     bind (sidebar (h ! df) ticked) (\<lambda>sel.
     bind (df_filtrado (h ! df) sel) (\<lambda>sub.
     bind (render argsort fsum gsum sub) (\<lambda>(scr, sub').
     Inr (h @ [sub, sub'], Suc (length h), scr))))"
proof (cases "sidebar (h ! df) ticked")
  case (Inl e)
  then show ?thesis by (simp add: dashboard_def)
next
  case sel: (Inr sel)
  show ?thesis
  proof (cases "filter_mask (h ! df) sel")
    case (Inl e)
    then show ?thesis by (simp add: dashboard_def df_filtrado_def sel)
  next
    case m: (Inr m)
    define f where "f = getitem_mask (h ! df) m"
    have h3: "setitem_at (Suc (length h)) c xs (h @ [f, f]) = h @ [f, setitem f c xs]" for c xs
      by (simp add: setitem_at_def nth_append list_update_append)
    show ?thesis
      by (simp add: dashboard_def df_filtrado_def sel m alloc_def copy_def f_def [symmetric]
          nth_append h3 render_def metrics_def Let_def bind_def split: sum.splits)
  qed
qed

subsection \<open>Claims about \<open>load_data\<close>\<close>

text \<open>The sheet of three sales loads into \<open>loaded3\<close>, whatever the library reads from
  text, since no cell of its date and value columns is text.\<close>

lemma load_sheet3: "load_data ts tn na sheet3 = Inr loaded3"
  by (simp add: load_data_def sheet3_def loaded3_def rename_def column_names_def getitem_def
      setitem_def to_numeric_def dt_year_def dt_month_def to_period_str_def period_str_def
      digit_def jan15_def feb10_def jan20_def Let_def)

text \<open>A value of either date column that the library cannot convert makes \<open>load_data\<close>
  raise.\<close>

lemma load_data_unparseable_raises:
  assumes g: "getitem (rename raw column_names) c = Inr xs"
    and c: "c = ''data_venda'' \<or> c = ''data_nf''"
    and x: "x \<in> set xs" "x \<noteq> Blank" "\<forall>t. x \<noteq> Ts t" "to_stamp x = Fails"
  shows "\<exists>e. load_data to_stamp to_num na raw = Inl e"
proof -
  from to_datetime_Fails [of x xs to_stamp] x
  obtain e where e: "to_datetime to_stamp xs = Inl e" by blast
  from c show ?thesis
  proof
    assume "c = ''data_venda''"
    with g e show ?thesis by (simp add: load_data_def Let_def)
  next
    assume "c = ''data_nf''"
    with g have "getitem (setitem (rename raw column_names) ''data_venda'' ys) ''data_nf'' = Inr xs" for ys
      by (simp add: getitem_setitem_other)
    with e show ?thesis
      by (simp add: load_data_def Let_def bind_def split: sum.splits)
  qed
qed

text \<open>
  C1 (the claim: an unparseable sale or invoice date is coerced to missing and the load
  completes). The code calls \<open>pd.to_datetime\<close> without \<open>errors="coerce"\<close>: on the
  sheet whose third sale date is the text "abc", for every library that cannot read
  "abc" as a date-time, \<open>load_data\<close> raises and returns no table.
\<close>

theorem load_data_text_date_raises:
  "to_stamp (Txt ''abc'') = Fails \<Longrightarrow>
   load_data to_stamp to_num na sheet_text_date = Inl (DateParseError (Txt ''abc''))"
  by (simp add: load_data_def sheet_text_date_def sheet3_def rename_def column_names_def
      getitem_def setitem_def Let_def)

theorem load_data_text_date_raises_witness:
  "strict_dates (Txt ''abc'') = Fails \<and>
   load_data strict_dates no_numbers pandas3_na sheet_text_date = Inl (DateParseError (Txt ''abc''))"
  using load_data_text_date_raises [of strict_dates no_numbers pandas3_na]
  by (simp add: strict_dates_def)

lemma getitem_absent:
  "c \<notin> fst ` set (cols df) \<Longrightarrow> getitem df c = Inl (KeyError c)"
proof -
  assume "c \<notin> fst ` set (cols df)"
  then have "filter (\<lambda>p. fst p = c) (cols df) = []"
    by (auto simp: filter_empty_conv)
  then show ?thesis by (simp add: getitem_def)
qed

lemma rename_absent:
  assumes "c \<notin> fst ` set (cols raw)" and "\<forall>s. (s, c) \<in> set m \<longrightarrow> s \<notin> fst ` set (cols raw)"
  shows "c \<notin> fst ` set (cols (rename raw m))"
proof
  assume "c \<in> fst ` set (cols (rename raw m))"
  then obtain p where p: "p \<in> set (cols raw)"
    and c: "c = (case map_of m (fst p) of Some c' \<Rightarrow> c' | None \<Rightarrow> fst p)"
    by (auto simp: rename_def)
  show False
  proof (cases "map_of m (fst p)")
    case None
    with c p assms(1) show ?thesis by force
  next
    case (Some c')
    with c have "(fst p, c) \<in> set m" by (auto dest: map_of_SomeD)
    with assms(2) p show ?thesis by force
  qed
qed

text \<open>The other six columns play no part in \<open>load_data\<close>: it returns a table as soon as
  the three columns are there and the two date columns convert.\<close>

lemma load_data_reads_three_columns:
  assumes "getitem (rename raw column_names) ''data_venda'' = Inr dv"
    and "to_datetime to_stamp dv = Inr dv'"
    and "getitem (rename raw column_names) ''data_nf'' = Inr nf"
    and "to_datetime to_stamp nf = Inr nf'"
    and "getitem (rename raw column_names) ''valor_venda'' = Inr vv"
  shows "load_data to_stamp to_num na raw =
     Inr (setitem (setitem (setitem (setitem (setitem (setitem (rename raw column_names)
            ''data_venda'' dv') ''data_nf'' nf') ''valor_venda'' (to_numeric to_num vv))
            ''ano'' (map dt_year dv')) ''mes'' (map dt_month dv'))
            ''ano_mes'' (map (to_period_str na) dv'))"
  using assms
  by (simp add: load_data_def Let_def getitem_setitem_other
      getitem_setitem_same [of _ _ dv])

text \<open>
  C2, as amended. \<open>load_data\<close> has no check of the schema: it renames the columns it
  finds and looks up three of them, the sale date, the invoice date and the sale value,
  in that order, converting each date column before the next lookup. For a source
  column that the sheet has under neither its source name \<open>s\<close> nor its name in the code
  \<open>c\<close>:

  \<^item> the sale date: \<open>load_data\<close> raises the \<open>KeyError\<close> of \<open>data_venda\<close>;
  \<^item> the invoice date: \<open>load_data\<close> raises the \<open>KeyError\<close> of \<open>data_nf\<close>, unless the
    lookup or the conversion of the sale date has raised before, and then it raises
    that exception;
  \<^item> the sale value: \<open>load_data\<close> raises the \<open>KeyError\<close> of \<open>valor_venda\<close>, unless the
    lookup or the conversion of the sale date or of the invoice date has raised
    before, and then it raises that exception;
  \<^item> any of the other six columns: the absence is not detected. Whenever the three
    columns are found and the two date columns convert, \<open>load_data\<close> returns a table,
    and that table has no column \<open>c\<close>.

  In the first three cases no table is returned.
\<close>

theorem load_data_missing_column:
  assumes sc: "(s, c) \<in> set column_names"
    and s: "s \<notin> fst ` set (cols raw)" and c: "c \<notin> fst ` set (cols raw)"
  shows "(c = ''data_venda'' \<longrightarrow>
            load_data to_stamp to_num na raw = Inl (KeyError ''data_venda'')) \<and>
         (c = ''data_nf'' \<longrightarrow>
            load_data to_stamp to_num na raw =
              (case bind (getitem (rename raw column_names) ''data_venda'') (to_datetime to_stamp) of
                 Inl e \<Rightarrow> Inl e
               | Inr dv \<Rightarrow> Inl (KeyError ''data_nf''))) \<and>
         (c = ''valor_venda'' \<longrightarrow>
            load_data to_stamp to_num na raw =
              (case bind (getitem (rename raw column_names) ''data_venda'') (to_datetime to_stamp) of
                 Inl e \<Rightarrow> Inl e
               | Inr dv \<Rightarrow>
                   (case bind (getitem (rename raw column_names) ''data_nf'') (to_datetime to_stamp) of
                      Inl e \<Rightarrow> Inl e
                    | Inr nf \<Rightarrow> Inl (KeyError ''valor_venda'')))) \<and>
         (c \<noteq> ''data_venda'' \<and> c \<noteq> ''data_nf'' \<and> c \<noteq> ''valor_venda'' \<longrightarrow>
            (\<forall>dv dv' nf nf' vv.
               getitem (rename raw column_names) ''data_venda'' = Inr dv \<and>
               to_datetime to_stamp dv = Inr dv' \<and>
               getitem (rename raw column_names) ''data_nf'' = Inr nf \<and>
               to_datetime to_stamp nf = Inr nf' \<and>
               getitem (rename raw column_names) ''valor_venda'' = Inr vv \<longrightarrow>
               (\<exists>df. load_data to_stamp to_num na raw = Inr df \<and>
                     getitem df c = Inl (KeyError c))))"
proof -
  define d0 where "d0 = rename raw column_names"
  have d: "distinct (map snd column_names)" by (simp add: column_names_def)
  have "s' = s" if "(s', c) \<in> set column_names" for s'
  proof -
    from d have "inj_on snd (set column_names)" by (simp add: distinct_map)
    from inj_onD [OF this _ that sc] show ?thesis by simp
  qed
  with s have "\<forall>s'. (s', c) \<in> set column_names \<longrightarrow> s' \<notin> fst ` set (cols raw)" by blast
  then have "c \<notin> fst ` set (cols d0)"
    unfolding d0_def using c by (intro rename_absent) simp_all
  then have a: "getitem d0 c = Inl (KeyError c)" by (rule getitem_absent)
  have 1: "load_data to_stamp to_num na raw = Inl (KeyError ''data_venda'')" if "c = ''data_venda''"
    using a that by (simp add: load_data_def Let_def d0_def [symmetric])
  have 2: "load_data to_stamp to_num na raw =
      (case bind (getitem d0 ''data_venda'') (to_datetime to_stamp) of
         Inl e \<Rightarrow> Inl e | Inr dv \<Rightarrow> Inl (KeyError ''data_nf''))" if "c = ''data_nf''"
  proof -
    from a that have "getitem (setitem d0 ''data_venda'' xs) ''data_nf'' = Inl (KeyError ''data_nf'')" for xs
      by (simp add: getitem_setitem_other)
    then show ?thesis
      by (simp add: load_data_def Let_def d0_def [symmetric] bind_def split: sum.splits)
  qed
  have 3: "load_data to_stamp to_num na raw =
      (case bind (getitem d0 ''data_venda'') (to_datetime to_stamp) of
         Inl e \<Rightarrow> Inl e
       | Inr dv \<Rightarrow>
           (case bind (getitem d0 ''data_nf'') (to_datetime to_stamp) of
              Inl e \<Rightarrow> Inl e | Inr nf \<Rightarrow> Inl (KeyError ''valor_venda'')))" if "c = ''valor_venda''"
  proof -
    from a that have "getitem (setitem (setitem d0 ''data_venda'' xs) ''data_nf'' ys) ''valor_venda''
        = Inl (KeyError ''valor_venda'')" for xs ys
      by (simp add: getitem_setitem_other)
    moreover have "getitem (setitem d0 ''data_venda'' xs) ''data_nf'' = getitem d0 ''data_nf''" for xs
      by (simp add: getitem_setitem_other)
    ultimately show ?thesis
      by (simp add: load_data_def Let_def d0_def [symmetric] bind_def split: sum.splits)
  qed
  have 4: "\<exists>df. load_data to_stamp to_num na raw = Inr df \<and> getitem df c = Inl (KeyError c)"
    if n: "c \<noteq> ''data_venda''" "c \<noteq> ''data_nf''" "c \<noteq> ''valor_venda''"
      and g: "getitem d0 ''data_venda'' = Inr dv" "to_datetime to_stamp dv = Inr dv'"
        "getitem d0 ''data_nf'' = Inr nf" "to_datetime to_stamp nf = Inr nf'"
        "getitem d0 ''valor_venda'' = Inr vv"
    for dv dv' nf nf' vv
  proof -
    from sc have "c \<in> snd ` set column_names" by force
    then have m: "c \<noteq> ''ano''" "c \<noteq> ''mes''" "c \<noteq> ''ano_mes''"
      by (auto simp: column_names_def)
    note ld = load_data_reads_three_columns [OF g [unfolded d0_def], of to_num na]
    have "getitem (setitem (setitem (setitem (setitem (setitem (setitem d0
            ''data_venda'' dv') ''data_nf'' nf') ''valor_venda'' (to_numeric to_num vv))
            ''ano'' (map dt_year dv')) ''mes'' (map dt_month dv'))
            ''ano_mes'' (map (to_period_str na) dv')) c = Inl (KeyError c)"
      using n m a by (simp add: getitem_setitem_other)
    with ld show ?thesis by (simp add: d0_def)
  qed
  from 1 2 3 4 show ?thesis unfolding d0_def by blast
qed

text \<open>
  On the sheet of three sales without its invoice-date column \<open>load_data\<close> raises the
  \<open>KeyError\<close> of \<open>data_nf\<close>; without its customer column it returns a table, which has
  no column \<open>cliente\<close>.
\<close>

theorem load_data_missing_column_witness:
  "(''Data de Emiss'' @ [CHR 0xC3, CHR 0xA3] @ ''o da NF'', ''data_nf'') \<in> set column_names \<and>
   ''Data de Emiss'' @ [CHR 0xC3, CHR 0xA3] @ ''o da NF'' \<notin> fst ` set (cols sheet_no_nf) \<and>
   ''data_nf'' \<notin> fst ` set (cols sheet_no_nf) \<and>
   load_data strict_dates no_numbers pandas3_na sheet_no_nf = Inl (KeyError ''data_nf'') \<and>
   (''Cliente'', ''cliente'') \<in> set column_names \<and>
   ''Cliente'' \<notin> fst ` set (cols sheet_no_cliente) \<and>
   ''cliente'' \<notin> fst ` set (cols sheet_no_cliente) \<and>
   (\<exists>df. load_data strict_dates no_numbers pandas3_na sheet_no_cliente = Inr df \<and>
         getitem df ''cliente'' = Inl (KeyError ''cliente''))"
proof -
  have n1: "(''Data de Emiss'' @ [CHR 0xC3, CHR 0xA3] @ ''o da NF'', ''data_nf'') \<in> set column_names"
    by (simp add: column_names_def)
  have n2: "''Data de Emiss'' @ [CHR 0xC3, CHR 0xA3] @ ''o da NF'' \<notin> fst ` set (cols sheet_no_nf)"
    by (simp add: sheet_no_nf_def sheet3_def)
  have n3: "''data_nf'' \<notin> fst ` set (cols sheet_no_nf)"
    by (simp add: sheet_no_nf_def sheet3_def)
  have n4: "bind (getitem (rename sheet_no_nf column_names) ''data_venda'') (to_datetime strict_dates)
      = Inr [Ts jan15, Ts feb10, Ts jan20]"
    by (simp add: sheet_no_nf_def sheet3_def rename_def column_names_def getitem_def)
  have c1: "(''Cliente'', ''cliente'') \<in> set column_names"
    by (simp add: column_names_def)
  have c2: "''Cliente'' \<notin> fst ` set (cols sheet_no_cliente)"
    by (simp add: sheet_no_cliente_def sheet3_def)
  have c3: "''cliente'' \<notin> fst ` set (cols sheet_no_cliente)"
    by (simp add: sheet_no_cliente_def sheet3_def)
  have c4: "getitem (rename sheet_no_cliente column_names) ''data_venda'' = Inr [Ts jan15, Ts feb10, Ts jan20]"
    "to_datetime strict_dates [Ts jan15, Ts feb10, Ts jan20] = Inr [Ts jan15, Ts feb10, Ts jan20]"
    "getitem (rename sheet_no_cliente column_names) ''data_nf'' = Inr [Ts feb10, Blank, Ts jan15]"
    "to_datetime strict_dates [Ts feb10, Blank, Ts jan15] = Inr [Ts feb10, Blank, Ts jan15]"
    "getitem (rename sheet_no_cliente column_names) ''valor_venda'' = Inr [Num 100, Num 50, Num 200]"
    by (simp_all add: sheet_no_cliente_def sheet3_def rename_def column_names_def getitem_def)
  from load_data_missing_column [OF n1 n2 n3, of strict_dates no_numbers pandas3_na] n4
  have r1: "load_data strict_dates no_numbers pandas3_na sheet_no_nf = Inl (KeyError ''data_nf'')"
    by simp
  from load_data_missing_column [OF c1 c2 c3, of strict_dates no_numbers pandas3_na] c4
  have r2: "\<exists>df. load_data strict_dates no_numbers pandas3_na sheet_no_cliente = Inr df \<and>
         getitem df ''cliente'' = Inl (KeyError ''cliente'')"
    by simp
  from n1 n2 n3 r1 c1 c2 c3 r2 show ?thesis by blast
qed

text \<open>
  C2, the claim as stated, fails: on the sheet without the customer column,
  \<open>load_data\<close> raises nothing and returns a table without the column \<open>cliente\<close>.
\<close>

theorem load_data_no_cliente_counterexample:
  "\<forall>na. map_sum id (\<lambda>df. map fst (cols df)) (load_data strict_dates no_numbers na sheet_no_cliente)
   = Inr [''data_venda'', ''data_nf'', ''vendedor'', ''tipo_solucao'', ''descricao_projeto'',
          ''valor_venda'', ''os'', ''proposta'', ''ano'', ''mes'', ''ano_mes'']"
  by (simp add: load_data_def sheet_no_cliente_def sheet3_def rename_def column_names_def
      getitem_def setitem_def Let_def)

text \<open>And an absent sale-value column is reported only if the dates before it convert:
  on the sheet whose third sale date is the text "abc", without its sale-value column,
  the exception is that of the date.\<close>

lemma load_data_no_valor_text_date:
  "load_data strict_dates no_numbers na
     (sheet_text_date\<lparr>cols := filter (\<lambda>p. fst p \<noteq> ''Valor da Venda (R$)'') (cols sheet_text_date)\<rparr>)
   = Inl (DateParseError (Txt ''abc''))"
  by (simp add: load_data_def sheet_text_date_def sheet3_def rename_def column_names_def
      getitem_def setitem_def strict_dates_def Let_def)

lemma datetimelike_nth:
  assumes "datetimelike xs" and "i < length xs"
  shows "xs ! i = Blank \<or> (\<exists>t. xs ! i = Ts t)"
proof -
  from assms have "case xs ! i of Blank \<Rightarrow> True | Ts _ \<Rightarrow> True | _ \<Rightarrow> False"
    by (simp add: datetimelike_def list_all_length)
  then show ?thesis by (cases "xs ! i") simp_all
qed

lemma period_str_jan15: "period_str jan15 = ''2023-01''"
  by (simp add: period_str_def jan15_def digit_def)

text \<open>
  C3, as amended. In the table that \<open>load_data\<close> returns, position by position: the
  sale date is a date-time or missing; for a date-time, \<open>ano\<close> is its year, \<open>mes\<close> its
  month and \<open>ano_mes\<close> the text "YYYY-MM"; for a missing sale date, \<open>ano\<close> and \<open>mes\<close>
  are missing and \<open>ano_mes\<close> is what the installed pandas makes of a missing month
  under \<open>astype(str)\<close>: the value \<open>na\<close>, which is missing on pandas 3 and the text
  "NaT", not missing, on pandas 2.
\<close>

theorem load_data_derived_fields:
  assumes "load_data to_stamp to_num na raw = Inr df" and "wf_frame (rename raw column_names)"
  shows "\<exists>dv a m ym. getitem df ''data_venda'' = Inr dv \<and> getitem df ''ano'' = Inr a \<and>
           getitem df ''mes'' = Inr m \<and> getitem df ''ano_mes'' = Inr ym \<and>
           length dv = length (index df) \<and> length a = length dv \<and>
           length m = length dv \<and> length ym = length dv \<and>
           (\<forall>i < length dv.
              (\<forall>t. dv ! i = Ts t \<longrightarrow>
                 a ! i = Num (of_int (ts_year t)) \<and> m ! i = Num (of_nat (ts_month t)) \<and>
                 ym ! i = Txt (period_str t)) \<and>
              (dv ! i = Blank \<longrightarrow> a ! i = Blank \<and> m ! i = Blank \<and> ym ! i = na) \<and>
              (dv ! i = Blank \<or> (\<exists>t. dv ! i = Ts t)))"
proof -
  from load_data_Inr [OF assms] obtain dv where
    wf: "wf_frame df" and g: "getitem df ''data_venda'' = Inr dv" and dl: "datetimelike dv"
    and d: "getitem df ''ano'' = Inr (map dt_year dv)" "getitem df ''mes'' = Inr (map dt_month dv)"
      "getitem df ''ano_mes'' = Inr (map (to_period_str na) dv)"
    by blast
  have "dv ! i = Blank \<or> (\<exists>t. dv ! i = Ts t)" if "i < length dv" for i
    using dl that by (rule datetimelike_nth)
  then show ?thesis
    using g d getitem_length [OF wf g]
    by (auto simp: dt_year_def dt_month_def to_period_str_def)
qed

text \<open>On the sheet whose second sale date is empty, with pandas 3: the year, the month
  and the year-month of the second row are missing.\<close>

theorem load_data_derived_fields_witness:
  "wf_frame (rename sheet_blank_date column_names) \<and>
   (\<exists>df. load_data strict_dates no_numbers pandas3_na sheet_blank_date = Inr df \<and>
      getitem df ''data_venda'' = Inr [Ts jan15, Blank, Ts jan20] \<and>
      getitem df ''ano'' = Inr [Num 2023, Blank, Num 2023] \<and>
      getitem df ''mes'' = Inr [Num 1, Blank, Num 1] \<and>
      getitem df ''ano_mes'' = Inr [Txt ''2023-01'', Blank, Txt ''2023-01''])"
proof -
  have wf: "wf_frame (rename sheet_blank_date column_names)"
    by (simp add: wf_frame_def sheet_blank_date_def sheet3_def rename_def column_names_def
        setitem_def)
  have "bind (load_data strict_dates no_numbers pandas3_na sheet_blank_date) (\<lambda>df.
          Inr (getitem df ''data_venda'', getitem df ''ano'', getitem df ''mes'',
               getitem df ''ano_mes''))
      = Inr (Inr [Ts jan15, Blank, Ts jan20], Inr [Num 2023, Blank, Num 2023],
             Inr [Num 1, Blank, Num 1], Inr [Txt ''2023-01'', Blank, Txt ''2023-01''])"
    by (simp add: load_data_def sheet_blank_date_def sheet3_def rename_def column_names_def
        getitem_def setitem_def to_numeric_def dt_year_def dt_month_def to_period_str_def
        period_str_def digit_def jan15_def feb10_def jan20_def pandas3_na_def Let_def)
  then obtain df where ld: "load_data strict_dates no_numbers pandas3_na sheet_blank_date = Inr df"
    and g: "getitem df ''data_venda'' = Inr [Ts jan15, Blank, Ts jan20]"
      "getitem df ''ano'' = Inr [Num 2023, Blank, Num 2023]"
      "getitem df ''mes'' = Inr [Num 1, Blank, Num 1]"
      "getitem df ''ano_mes'' = Inr [Txt ''2023-01'', Blank, Txt ''2023-01'']"
    by (auto simp: bind_Inr_iff)
  from load_data_derived_fields [OF ld wf] g wf ld show ?thesis by blast
qed

text \<open>
  C3, the claim as stated, fails with pandas 2: on the sheet whose second sale date is
  empty, the year and the month of the second row are missing, and its year-month is
  the text "NaT", which is not missing.
\<close>

theorem load_data_blank_date_counterexample:
  "bind (load_data strict_dates no_numbers pandas2_na sheet_blank_date) (\<lambda>df.
   bind (getitem df ''ano'') (\<lambda>a.
   bind (getitem df ''mes'') (\<lambda>m.
   bind (getitem df ''ano_mes'') (\<lambda>ym. Inr (a, m, ym)))))
   = Inr ([Num 2023, Blank, Num 2023], [Num 1, Blank, Num 1],
          [Txt ''2023-01'', Txt ''NaT'', Txt ''2023-01''])"
  by (simp add: load_data_def sheet_blank_date_def sheet3_def rename_def column_names_def
      getitem_def setitem_def to_numeric_def dt_year_def dt_month_def to_period_str_def
      period_str_def digit_def jan15_def feb10_def jan20_def pandas2_na_def Let_def)

subsection \<open>Claims about the filter\<close>

lemma length_index_rows: "length (index df) = length (rows df)"
  by simp

lemma field_rows:
  assumes "getitem df c = Inr xs" and "wf_frame df" and "r \<in> set (rows df)"
  shows "\<exists>i < length xs. field r c = Some (xs ! i)"
proof -
  from assms(3) obtain i where "i < length (index df)" "r = row_at df i"
    by (auto simp: rows_def)
  with field_row_at [OF assms(1)] getitem_length [OF assms(2,1)] show ?thesis by auto
qed

text \<open>
  C4. On a table with the four filter columns, the filtered table exists and its rows
  are exactly the rows that qualify, in their order; an empty selection set leaves no
  row; a row whose value in a dimension is missing is not in the result when the
  selection set of that dimension has no missing value (the widgets offer none).
\<close>

theorem df_filtrado_membership:
  assumes wf: "wf_frame df"
    and hc: "has_cols df [''ano'', ''vendedor'', ''tipo_solucao'', ''cliente'']"
  shows "\<exists>sub. df_filtrado df sel = Inr sub \<and>
           rows sub = filter (qualifies sel) (rows df) \<and>
           ((\<exists>d \<in> set (dims sel). snd d = []) \<longrightarrow> rows sub = []) \<and>
           (\<forall>r. \<forall>d \<in> set (dims sel).
              Blank \<notin> set (snd d) \<and> field r (fst d) = Some Blank \<longrightarrow> r \<notin> set (rows sub))"
proof -
  from df_filtrado_rows [OF wf hc] obtain sub where
    s: "df_filtrado df sel = Inr sub" "rows sub = filter (qualifies sel) (rows df)"
    by blast
  have e: "\<not> qualifies sel r" if "\<exists>d \<in> set (dims sel). snd d = []" for r
    using that by (auto simp: dims_def qualifies_def member_def split: option.splits)
  have b: "\<not> qualifies sel r"
    if "d \<in> set (dims sel)" "Blank \<notin> set (snd d)" "field r (fst d) = Some Blank" for r d
    using that by (auto simp: dims_def qualifies_def member_def)
  from s e b show ?thesis by (auto simp: filter_empty_conv)
qed

lemma wf_loaded3: "wf_frame loaded3"
  by (simp add: wf_frame_def loaded3_def)

lemma has_cols_loaded3: "has_cols loaded3 [''ano'', ''vendedor'', ''tipo_solucao'', ''cliente'']"
  by (simp add: has_cols_def loaded3_def getitem_def)

lemma wf_loaded_gaps: "wf_frame loaded_gaps"
  by code_simp

lemma has_cols_loaded_gaps:
  "has_cols loaded_gaps [''ano'', ''vendedor'', ''tipo_solucao'', ''cliente'']"
  by code_simp

theorem df_filtrado_membership_witness:
  "wf_frame loaded_gaps \<and>
   has_cols loaded_gaps [''ano'', ''vendedor'', ''tipo_solucao'', ''cliente''] \<and>
   (\<exists>sub. df_filtrado loaded_gaps sel_all = Inr sub \<and> map fst (rows sub) = [0, 3]) \<and>
   (\<exists>sub. df_filtrado loaded_gaps sel_none = Inr sub \<and> rows sub = [])"
proof -
  have "map fst (filter (qualifies sel_all) (rows loaded_gaps)) = [0, 3]" by code_simp
  with df_filtrado_membership [OF wf_loaded_gaps has_cols_loaded_gaps, of sel_all]
  have 1: "\<exists>sub. df_filtrado loaded_gaps sel_all = Inr sub \<and> map fst (rows sub) = [0, 3]"
    by auto
  have "\<exists>d \<in> set (dims sel_none). snd d = []" by (simp add: dims_def sel_none_def)
  with df_filtrado_membership [OF wf_loaded_gaps has_cols_loaded_gaps, of sel_none]
  have 2: "\<exists>sub. df_filtrado loaded_gaps sel_none = Inr sub \<and> rows sub = []"
    by auto
  from 1 2 wf_loaded_gaps has_cols_loaded_gaps show ?thesis by simp
qed

lemma qualifies_mono:
  assumes "set (ano_selecionado s1) \<subseteq> set (ano_selecionado s2)"
    and "set (vendedor_selecionado s1) \<subseteq> set (vendedor_selecionado s2)"
    and "set (tipo_selecionado s1) \<subseteq> set (tipo_selecionado s2)"
    and "set (cliente_selecionado s1) \<subseteq> set (cliente_selecionado s2)"
    and "qualifies s1 r"
  shows "qualifies s2 r"
  using assms by (auto simp: qualifies_def member_def split: option.splits)

text \<open>
  C8. A selection that is narrower in each of the four dimensions leaves at most as many
  rows.
\<close>

theorem df_filtrado_monotone:
  assumes wf: "wf_frame df"
    and hc: "has_cols df [''ano'', ''vendedor'', ''tipo_solucao'', ''cliente'']"
    and s: "set (ano_selecionado s1) \<subseteq> set (ano_selecionado s2)"
      "set (vendedor_selecionado s1) \<subseteq> set (vendedor_selecionado s2)"
      "set (tipo_selecionado s1) \<subseteq> set (tipo_selecionado s2)"
      "set (cliente_selecionado s1) \<subseteq> set (cliente_selecionado s2)"
  shows "\<exists>sub1 sub2. df_filtrado df s1 = Inr sub1 \<and> df_filtrado df s2 = Inr sub2 \<and>
           qtd_vendas sub1 \<le> qtd_vendas sub2"
proof -
  from df_filtrado_rows [OF wf hc] obtain sub1 sub2 where
    r1: "df_filtrado df s1 = Inr sub1" "rows sub1 = filter (qualifies s1) (rows df)" and
    r2: "df_filtrado df s2 = Inr sub2" "rows sub2 = filter (qualifies s2) (rows df)"
    by blast
  have "length (filter (qualifies s1) (rows df)) \<le> length (filter (qualifies s2) (rows df))"
    by (rule length_filter_mono) (rule qualifies_mono [OF s])
  then have "qtd_vendas sub1 \<le> qtd_vendas sub2"
    using r1(2) r2(2) length_index_rows [of sub1] length_index_rows [of sub2]
    by (simp add: qtd_vendas_def)
  with r1(1) r2(1) show ?thesis by blast
qed

theorem df_filtrado_monotone_witness:
  "wf_frame loaded3 \<and> has_cols loaded3 [''ano'', ''vendedor'', ''tipo_solucao'', ''cliente''] \<and>
   set (ano_selecionado sel_v) \<subseteq> set (ano_selecionado sel_all) \<and>
   set (vendedor_selecionado sel_v) \<subseteq> set (vendedor_selecionado sel_all) \<and>
   set (tipo_selecionado sel_v) \<subseteq> set (tipo_selecionado sel_all) \<and>
   set (cliente_selecionado sel_v) \<subseteq> set (cliente_selecionado sel_all) \<and>
   (\<exists>sub1 sub2. df_filtrado loaded3 sel_v = Inr sub1 \<and> df_filtrado loaded3 sel_all = Inr sub2 \<and>
      qtd_vendas sub1 \<le> qtd_vendas sub2)"
proof -
  have s: "set (ano_selecionado sel_v) \<subseteq> set (ano_selecionado sel_all)"
      "set (vendedor_selecionado sel_v) \<subseteq> set (vendedor_selecionado sel_all)"
      "set (tipo_selecionado sel_v) \<subseteq> set (tipo_selecionado sel_all)"
      "set (cliente_selecionado sel_v) \<subseteq> set (cliente_selecionado sel_all)"
    by (simp_all add: sel_v_def sel_all_def)
  from df_filtrado_monotone [OF wf_loaded3 has_cols_loaded3 s] s wf_loaded3 has_cols_loaded3
  show ?thesis by blast
qed

lemma sorted_py_set: "sorted_py xs = Inr ys \<Longrightarrow> set ys = set xs"
  by (auto simp: sorted_py_def split: if_splits)

lemma options_Inr:
  assumes "options df c = Inr opts"
  shows "\<exists>xs. getitem df c = Inr xs \<and> set opts = set xs - {Blank}"
proof -
  from assms obtain xs where g: "getitem df c = Inr xs"
    and s: "sorted_py (unique (dropna xs)) = Inr opts"
    by (auto simp: options_def bind_Inr_iff)
  from sorted_py_set [OF s] g show ?thesis by simp
qed

text \<open>Whatever the user ticks, no widget returns a missing value.\<close>

lemma sidebar_no_blank:
  assumes "sidebar df ticked = Inr sel" and "d \<in> set (dims sel)"
  shows "Blank \<notin> set (snd d)"
proof -
  from assms(1) obtain a v t c where
    o: "options df ''ano'' = Inr a" "options df ''vendedor'' = Inr v"
       "options df ''tipo_solucao'' = Inr t" "options df ''cliente'' = Inr c" and
    sel: "sel = \<lparr>ano_selecionado = multiselect a (ticked ''ano''),
          vendedor_selecionado = multiselect v (ticked ''vendedor''),
          tipo_selecionado = multiselect t (ticked ''tipo_solucao''),
          cliente_selecionado = multiselect c (ticked ''cliente'')\<rparr>"
    by (auto simp: sidebar_def bind_Inr_iff)
  from o [THEN options_Inr] have "Blank \<notin> set a" "Blank \<notin> set v" "Blank \<notin> set t" "Blank \<notin> set c"
    by auto
  with assms(2) show ?thesis by (auto simp: sel dims_def multiselect_def)
qed

lemma sidebar_has_cols:
  assumes "sidebar df ticked = Inr sel"
  shows "has_cols df [''ano'', ''vendedor'', ''tipo_solucao'', ''cliente'']"
proof -
  from assms obtain a v t c where
    o: "options df ''ano'' = Inr a" "options df ''vendedor'' = Inr v"
       "options df ''tipo_solucao'' = Inr t" "options df ''cliente'' = Inr c"
    by (auto simp: sidebar_def bind_Inr_iff)
  from o [THEN options_Inr] show ?thesis by (auto simp: has_cols_def)
qed

lemma member_default:
  assumes o: "options df c = Inr opts" and wf: "wf_frame df" and r: "r \<in> set (rows df)"
  shows "member r c (multiselect opts (\<lambda>x. True)) \<longleftrightarrow>
         (case field r c of Some x \<Rightarrow> x \<noteq> Blank | None \<Rightarrow> False)"
proof -
  from options_Inr [OF o] obtain xs where g: "getitem df c = Inr xs" and s: "set opts = set xs - {Blank}"
    by blast
  from field_rows [OF g wf r] obtain i where "i < length xs" "field r c = Some (xs ! i)" by blast
  then show ?thesis using s by (simp add: member_def multiselect_def)
qed

lemma sidebar_default_rows:
  assumes wf: "wf_frame df" and sb: "sidebar df (\<lambda>c x. True) = Inr sel"
  shows "\<exists>sub. df_filtrado df sel = Inr sub \<and> rows sub = filter complete (rows df)"
proof -
  from sb obtain a v t c where
    o: "options df ''ano'' = Inr a" "options df ''vendedor'' = Inr v"
       "options df ''tipo_solucao'' = Inr t" "options df ''cliente'' = Inr c" and
    sel: "sel = \<lparr>ano_selecionado = multiselect a (\<lambda>x. True),
          vendedor_selecionado = multiselect v (\<lambda>x. True),
          tipo_selecionado = multiselect t (\<lambda>x. True),
          cliente_selecionado = multiselect c (\<lambda>x. True)\<rparr>"
    by (auto simp: sidebar_def bind_Inr_iff)
  from df_filtrado_rows [OF wf sidebar_has_cols [OF sb]] obtain sub where
    s: "df_filtrado df sel = Inr sub" "rows sub = filter (qualifies sel) (rows df)"
    by blast
  have "qualifies sel r = complete r" if "r \<in> set (rows df)" for r
    using o [THEN member_default, OF wf that]
    by (simp add: qualifies_def complete_def sel)
  then have "filter (qualifies sel) (rows df) = filter complete (rows df)"
    by (intro filter_cong) simp_all
  with s show ?thesis by simp
qed

lemma load_sheet_gaps: "load_data strict_dates no_numbers pandas2_na sheet_gaps = Inr loaded_gaps"
  by code_simp

lemma load_sheet_gaps3: "load_data strict_dates no_numbers pandas3_na sheet_gaps = Inr loaded_gaps3"
  by code_simp

subsection \<open>Claims about the metrics and the store\<close>

lemma wf_empty_cols:
  assumes "wf_frame sub" and "index sub = []" and "getitem sub c = Inr xs"
  shows "xs = []"
  using getitem_length [OF assms(1,3)] assms(2) by simp

text \<open>
  C5. On a filtered table with no rows, nothing raises: the total is 0, the average
  ticket is 0 by the guard of line 99, and the average cycle is NaN (\<open>None\<close>), which the
  fourth card shows as a dash.
\<close>

theorem metrics_no_rows:
  assumes wf: "wf_frame sub"
    and hc: "has_cols sub [''valor_venda'', ''data_nf'', ''data_venda'']"
    and e: "qtd_vendas sub = 0"
  shows "\<exists>k sub'. metrics fsum sub = Inr (k, sub') \<and>
           k_total_vendas k = 0 \<and> k_qtd_vendas k = 0 \<and> k_ticket_medio k = 0 \<and>
           k_ciclo_medio k = None \<and> ciclo_card (k_ciclo_medio k) = Dash"
proof -
  from e have i: "index sub = []" by (simp add: qtd_vendas_def)
  from hc obtain vs nf dv where
    g: "getitem sub ''valor_venda'' = Inr vs" "getitem sub ''data_nf'' = Inr nf"
       "getitem sub ''data_venda'' = Inr dv"
    by (auto simp: has_cols_def split: sum.splits)
  from g [THEN wf_empty_cols [OF wf i]] have n: "vs = []" "nf = []" "dv = []" by simp_all
  have lt: "lead_time_dias sub = Inr []"
    by (simp add: lead_time_dias_def g n datetimelike_def)
  have "metrics fsum sub =
      Inr (\<lparr>k_total_vendas = 0, k_qtd_vendas = 0, k_ticket_medio = 0, k_ciclo_medio = None\<rparr>,
           setitem sub ''lead_time_dias'' [])"
    using g(1) n(1) e lt getitem_setitem_wf [OF wf, of "''lead_time_dias''" "[]"]
    by (simp add: metrics_def total_vendas_def sum_skipna_def ticket_medio_def mean_skipna_def
        present_def Let_def)
  then show ?thesis by (simp add: ciclo_card_def)
qed

text \<open>The table with no rows that the filter leaves of \<open>loaded3\<close> when no year is
  selected; the whole page is then computed without an exception, with a notice in
  place of each chart.\<close>

lemma df_filtrado_sel_none: "df_filtrado loaded3 sel_none = Inr (take_rows loaded3 [])"
  by code_simp

lemma dashboard_no_year_ticked:
  "map_sum id (\<lambda>r. (s_kpis (snd (snd r)), s_card4 (snd (snd r)), s_mes (snd (snd r)),
        s_tipo (snd (snd r)), s_cliente (snd (snd r)), s_vendedor (snd (snd r))))
     (dashboard np_quicksort sum_list sum_list (\<lambda>c x. c \<noteq> ''ano'') [loaded3] 0)
   = Inr (\<lparr>k_total_vendas = 0, k_qtd_vendas = 0, k_ticket_medio = 0, k_ciclo_medio = None\<rparr>,
          Dash, None, None, None, None)"
  by code_simp

theorem metrics_no_rows_witness:
  "wf_frame (take_rows loaded3 []) \<and>
   has_cols (take_rows loaded3 []) [''valor_venda'', ''data_nf'', ''data_venda''] \<and>
   qtd_vendas (take_rows loaded3 []) = 0 \<and>
   metrics sum_list (take_rows loaded3 []) =
     Inr (\<lparr>k_total_vendas = 0, k_qtd_vendas = 0, k_ticket_medio = 0, k_ciclo_medio = None\<rparr>,
          setitem (take_rows loaded3 []) ''lead_time_dias'' [])"
proof -
  have wf: "wf_frame (take_rows loaded3 [])" by code_simp
  have hc: "has_cols (take_rows loaded3 []) [''valor_venda'', ''data_nf'', ''data_venda'']"
    by code_simp
  have e: "qtd_vendas (take_rows loaded3 []) = 0" by code_simp
  have m: "metrics sum_list (take_rows loaded3 []) =
     Inr (\<lparr>k_total_vendas = 0, k_qtd_vendas = 0, k_ticket_medio = 0, k_ciclo_medio = None\<rparr>,
          setitem (take_rows loaded3 []) ''lead_time_dias'' [])"
    by code_simp
  from metrics_no_rows [OF wf hc e, of sum_list] wf hc e m show ?thesis by simp
qed

text \<open>
  C9. A run of the script leaves every table object that existed before it as it was,
  the table \<open>df\<close> of \<open>load_data\<close> among them: the filtered table is a new object (two,
  with the copy), and the column of line 102 is written to that object, at a new
  address.
\<close>

theorem dashboard_keeps_df:
  assumes run: "dashboard argsort fsum gsum ticked h df = Inr (h', b, scr)" and a: "df < length h"
  shows "h' ! df = h ! df \<and> take (length h) h' = h \<and> b \<noteq> df \<and>
         has_cols (h' ! b) [''lead_time_dias'']"
proof -
  from run obtain sel sub sub' where
    sb: "sidebar (h ! df) ticked = Inr sel" and f: "df_filtrado (h ! df) sel = Inr sub" and
    r: "render argsort fsum gsum sub = Inr (scr, sub')" and h': "h' = h @ [sub, sub']" and b: "b = Suc (length h)"
    by (auto simp: dashboard_render bind_Inr_iff)
  from r obtain k col where m: "metrics fsum sub = Inr (k, sub')"
    by (auto simp: render_def bind_Inr_iff)
  then have "\<exists>col. getitem sub' ''lead_time_dias'' = Inr col"
    by (auto simp: metrics_def bind_Inr_iff Let_def)
  then have "has_cols (h' ! b) [''lead_time_dias'']"
    by (auto simp: has_cols_def h' b nth_append)
  with a show ?thesis by (simp add: h' b nth_append)
qed

lemma dashboard_loaded3:
  "dashboard np_quicksort sum_list sum_list (\<lambda>c x. True) [loaded3] 0 =
     Inr ([loaded3, loaded3, setitem loaded3 ''lead_time_dias'' [Num 26, Blank, Num (- 5)]], 2, screen3)"
  by code_simp

theorem dashboard_keeps_df_witness:
  "dashboard np_quicksort sum_list sum_list (\<lambda>c x. True) [loaded3] 0 =
     Inr ([loaded3, loaded3, setitem loaded3 ''lead_time_dias'' [Num 26, Blank, Num (- 5)]], 2, screen3) \<and>
   (0::nat) < length [loaded3] \<and>
   [loaded3, loaded3, setitem loaded3 ''lead_time_dias'' [Num 26, Blank, Num (- 5)]] ! 0 = [loaded3] ! 0"
  using dashboard_keeps_df [OF dashboard_loaded3] dashboard_loaded3 by simp

text \<open>
  C10. In a run of the script with every widget left at its default, which is all the
  options, the filtered table consists of exactly the rows that have a value in each of
  the four filter dimensions: a row with a missing year (that is, a missing sale date),
  salesperson, solution type or customer is not in it. All that the page shows, the
  metrics, the four charts and the detail table, is computed from that table.
\<close>

theorem default_selection_drops_incomplete_rows:
  assumes wf: "wf_frame (h ! df)"
    and run: "dashboard argsort fsum gsum (\<lambda>c x. True) h df = Inr (h', b, scr)"
  shows "\<exists>sel sub. sidebar (h ! df) (\<lambda>c x. True) = Inr sel \<and>
           df_filtrado (h ! df) sel = Inr sub \<and>
           rows sub = filter complete (rows (h ! df)) \<and>
           render argsort fsum gsum sub = Inr (scr, h' ! b)"
proof -
  from run obtain sel sub sub' where
    sb: "sidebar (h ! df) (\<lambda>c x. True) = Inr sel" and f: "df_filtrado (h ! df) sel = Inr sub" and
    r: "render argsort fsum gsum sub = Inr (scr, sub')" and h': "h' = h @ [sub, sub']" and b: "b = Suc (length h)"
    by (auto simp: dashboard_render bind_Inr_iff)
  from sidebar_default_rows [OF wf sb] f have "rows sub = filter complete (rows (h ! df))"
    by auto
  moreover have "h' ! b = sub'" by (simp add: h' b nth_append)
  ultimately show ?thesis using sb f r by auto
qed

theorem default_selection_drops_incomplete_rows_witness:
  "wf_frame ([loaded_gaps] ! 0) \<and>
   (\<exists>h' b scr sel sub.
      dashboard np_quicksort sum_list sum_list (\<lambda>c x. True) [loaded_gaps] 0 = Inr (h', b, scr) \<and>
      sidebar loaded_gaps (\<lambda>c x. True) = Inr sel \<and>
      df_filtrado loaded_gaps sel = Inr sub \<and> map fst (rows sub) = [0, 3] \<and>
      render np_quicksort sum_list sum_list sub = Inr (scr, h' ! b))"
proof -
  have wf: "wf_frame ([loaded_gaps] ! 0)" by code_simp
  have "case dashboard np_quicksort sum_list sum_list (\<lambda>c x. True) [loaded_gaps] 0 of
          Inr r \<Rightarrow> True | Inl e \<Rightarrow> False"
    by code_simp
  then obtain h' b scr where
    run: "dashboard np_quicksort sum_list sum_list (\<lambda>c x. True) [loaded_gaps] 0 = Inr (h', b, scr)"
    by (cases "dashboard np_quicksort sum_list sum_list (\<lambda>c x. True) [loaded_gaps] 0") auto
  have "map fst (filter complete (rows loaded_gaps)) = [0, 3]" by code_simp
  with default_selection_drops_incomplete_rows [OF wf run] wf run show ?thesis by auto
qed

subsection \<open>Claims about the grouped sums\<close>

text \<open>
  C6, as amended. For every sort the library may use (\<open>argsort_ok\<close>) and whatever its
  sums round to, on a filtered table with the five columns: each of the four tables
  holds the rows of its grouped sums; the month table is in ascending order of the
  month; the solution-type, salesperson and customer tables are in descending order of
  the summed sale value; and the customer table is the first ten rows of the sorted
  table. Equal sums are in the original group order when the library's sort is
  stable; the code does not ask for a stable sort, so otherwise their order is
  whatever the sort gives.
\<close>

theorem grouped_tables_sorted:
  assumes ok: "argsort_ok argsort"
    and hc: "has_cols sub [''ano_mes'', ''tipo_solucao'', ''cliente'', ''vendedor'', ''valor_venda'']"
  shows "\<exists>m t v s.
           df_mes argsort gsum sub = Inr m \<and> ascending_by m ''ano_mes'' \<and>
           (\<exists>g. groupby_sum gsum sub ''ano_mes'' ''valor_venda'' = Inr g \<and> mset (rows m) = mset (rows g)) \<and>
           df_tipo argsort gsum sub = Inr t \<and> descending_by t ''valor_venda'' \<and>
           (\<exists>g. groupby_sum gsum sub ''tipo_solucao'' ''valor_venda'' = Inr g \<and> mset (rows t) = mset (rows g)) \<and>
           df_vendedor argsort gsum sub = Inr v \<and> descending_by v ''valor_venda'' \<and>
           (\<exists>g. groupby_sum gsum sub ''vendedor'' ''valor_venda'' = Inr g \<and> mset (rows v) = mset (rows g)) \<and>
           bind (groupby_sum gsum sub ''cliente'' ''valor_venda'')
             (\<lambda>g. sort_values argsort g ''valor_venda'' False) = Inr s \<and>
           descending_by s ''valor_venda'' \<and>
           (\<exists>g. groupby_sum gsum sub ''cliente'' ''valor_venda'' = Inr g \<and> mset (rows s) = mset (rows g)) \<and>
           df_cliente argsort gsum sub = Inr (head 10 s) \<and>
           rows (head 10 s) = take 10 (rows s) \<and> descending_by (head 10 s) ''valor_venda'' \<and>
           (stable argsort \<longrightarrow>
              ties_in_group_order t \<and> ties_in_group_order v \<and> ties_in_group_order s \<and>
              ties_in_group_order (head 10 s))"
proof -
  from hc obtain ym tp cl vd vs where
    g: "getitem sub ''ano_mes'' = Inr ym" "getitem sub ''tipo_solucao'' = Inr tp"
       "getitem sub ''cliente'' = Inr cl" "getitem sub ''vendedor'' = Inr vd"
    and gv: "getitem sub ''valor_venda'' = Inr vs"
    by (auto simp: has_cols_def split: sum.splits)
  have kv: "''ano_mes'' \<noteq> ''valor_venda''" "''tipo_solucao'' \<noteq> ''valor_venda''"
    "''cliente'' \<noteq> ''valor_venda''" "''vendedor'' \<noteq> ''valor_venda''"
    by simp_all
  from grouped_then_sorted [OF ok g(1) gv, of "''ano_mes''" gsum True] groupby_sum_Inr(1) [OF g(1) gv kv(1), of gsum]
  obtain m where m: "df_mes argsort gsum sub = Inr m" "ascending_by m ''ano_mes''"
    "\<exists>g. groupby_sum gsum sub ''ano_mes'' ''valor_venda'' = Inr g \<and> mset (rows m) = mset (rows g)"
    by (auto simp: df_mes_def ascending_by_def)
  from grouped_then_sorted [OF ok g(2) gv, of "''valor_venda''" gsum False] groupby_sum_Inr(1) [OF g(2) gv kv(2), of gsum]
  obtain t where t: "df_tipo argsort gsum sub = Inr t" "descending_by t ''valor_venda''"
    "\<exists>g. groupby_sum gsum sub ''tipo_solucao'' ''valor_venda'' = Inr g \<and> mset (rows t) = mset (rows g)"
    by (auto simp: df_tipo_def descending_by_def)
  from grouped_then_sorted [OF ok g(4) gv, of "''valor_venda''" gsum False] groupby_sum_Inr(1) [OF g(4) gv kv(4), of gsum]
  obtain v where v: "df_vendedor argsort gsum sub = Inr v" "descending_by v ''valor_venda''"
    "\<exists>g. groupby_sum gsum sub ''vendedor'' ''valor_venda'' = Inr g \<and> mset (rows v) = mset (rows g)"
    by (auto simp: df_vendedor_def descending_by_def)
  from grouped_then_sorted [OF ok g(3) gv, of "''valor_venda''" gsum False] groupby_sum_Inr(1) [OF g(3) gv kv(3), of gsum]
  obtain s where s: "bind (groupby_sum gsum sub ''cliente'' ''valor_venda'')
             (\<lambda>g. sort_values argsort g ''valor_venda'' False) = Inr s"
    "wf_frame s" "descending_by s ''valor_venda''"
    "\<exists>g. groupby_sum gsum sub ''cliente'' ''valor_venda'' = Inr g \<and> mset (rows s) = mset (rows g)"
    by (auto simp: descending_by_def)
  from s(1) have c: "df_cliente argsort gsum sub = Inr (head 10 s)"
    by (auto simp: df_cliente_def bind_Inr_iff)
  have ties: "ties_in_group_order t \<and> ties_in_group_order v \<and> ties_in_group_order s \<and>
      ties_in_group_order (head 10 s)" if st: "stable argsort"
  proof -
    have "ties_in_group_order t"
      using grouped_sorted_ties [OF ok st g(2) gv kv(2)] t(1) by (simp add: df_tipo_def)
    moreover have "ties_in_group_order v"
      using grouped_sorted_ties [OF ok st g(4) gv kv(4)] v(1) by (simp add: df_vendedor_def)
    moreover have "ties_in_group_order s"
      by (rule grouped_sorted_ties [OF ok st g(3) gv kv(3) s(1)])
    ultimately show ?thesis by (simp add: ties_in_group_order_head)
  qed
  from m t v s c rows_head [of 10 s] descending_by_head [OF s(2,3), of 10] ties
  show ?thesis by blast
qed

lemma has_cols_loaded3_groups:
  "has_cols loaded3 [''ano_mes'', ''tipo_solucao'', ''cliente'', ''vendedor'', ''valor_venda'']"
  by (simp add: has_cols_def loaded3_def getitem_def)

theorem grouped_tables_sorted_witness:
  "argsort_ok argsort_stable \<and> stable argsort_stable \<and>
   has_cols loaded3 [''ano_mes'', ''tipo_solucao'', ''cliente'', ''vendedor'', ''valor_venda''] \<and>
   df_cliente argsort_stable sum_list loaded3 =
     Inr \<lparr>index = [1, 0],
          cols = [(''cliente'', [Txt ''B'', Txt ''A'']), (''valor_venda'', [Num 200, Num 150])]\<rparr> \<and>
   descending_by \<lparr>index = [1, 0],
          cols = [(''cliente'', [Txt ''B'', Txt ''A'']), (''valor_venda'', [Num 200, Num 150])]\<rparr>
     ''valor_venda'' \<and>
   ties_in_group_order \<lparr>index = [1, 0],
          cols = [(''cliente'', [Txt ''B'', Txt ''A'']), (''valor_venda'', [Num 200, Num 150])]\<rparr>"
proof -
  have c: "df_cliente argsort_stable sum_list loaded3 =
     Inr \<lparr>index = [1, 0],
          cols = [(''cliente'', [Txt ''B'', Txt ''A'']), (''valor_venda'', [Num 200, Num 150])]\<rparr>"
    by code_simp
  from grouped_tables_sorted [OF argsort_stable_ok has_cols_loaded3_groups, of sum_list]
  show ?thesis using c argsort_stable_ok argsort_stable_stable has_cols_loaded3_groups by auto
qed

text \<open>
  C6, the claim as stated, fails in its last part. The code sorts with the default
  kind, numpy's quicksort. On the sheet of eighteen customers with one sale of 1 each,
  the groups are the customers C00 to C17, in this order, each with the sum 1, and
  the customer table that the code makes of them with that sort is not in group
  order.
\<close>

theorem quicksort_ties_counterexample:
  "bind (filtered_of_sheet strict_dates no_numbers pandas3_na (\<lambda>c x. True) sheet18)
     (\<lambda>sub. groupby_sum sum_list sub ''cliente'' ''valor_venda'') =
     Inr \<lparr>index = [0, 1, 2, 3, 4, 5, 6, 7, 8, 9, 10, 11, 12, 13, 14, 15, 16, 17],
          cols = [(''cliente'', [Txt ''C00'', Txt ''C01'', Txt ''C02'', Txt ''C03'', Txt ''C04'', Txt ''C05'', Txt ''C06'', Txt ''C07'', Txt ''C08'', Txt ''C09'', Txt ''C10'', Txt ''C11'', Txt ''C12'', Txt ''C13'', Txt ''C14'', Txt ''C15'', Txt ''C16'', Txt ''C17'']),
                  (''valor_venda'', replicate 18 (Num 1))]\<rparr> \<and>
   bind (filtered_of_sheet strict_dates no_numbers pandas3_na (\<lambda>c x. True) sheet18)
     (\<lambda>sub. bind (df_cliente np_quicksort sum_list sub) (\<lambda>t. Inr (ties_in_group_order t))) =
     Inr False"
proof (intro conjI)
  show "bind (filtered_of_sheet strict_dates no_numbers pandas3_na (\<lambda>c x. True) sheet18)
     (\<lambda>sub. groupby_sum sum_list sub ''cliente'' ''valor_venda'') =
     Inr \<lparr>index = [0, 1, 2, 3, 4, 5, 6, 7, 8, 9, 10, 11, 12, 13, 14, 15, 16, 17],
          cols = [(''cliente'', [Txt ''C00'', Txt ''C01'', Txt ''C02'', Txt ''C03'', Txt ''C04'', Txt ''C05'', Txt ''C06'', Txt ''C07'', Txt ''C08'', Txt ''C09'', Txt ''C10'', Txt ''C11'', Txt ''C12'', Txt ''C13'', Txt ''C14'', Txt ''C15'', Txt ''C16'', Txt ''C17'']),
                  (''valor_venda'', replicate 18 (Num 1))]\<rparr>"
    by code_simp
  show "bind (filtered_of_sheet strict_dates no_numbers pandas3_na (\<lambda>c x. True) sheet18)
     (\<lambda>sub. bind (df_cliente np_quicksort sum_list sub) (\<lambda>t. Inr (ties_in_group_order t))) =
     Inr False"
    by code_simp
qed

text \<open>
  The run in detail, with numpy's portable routine. The eighteen equal sums are
  reversed (the sort is descending) and handed to \<open>aquicksort_\<close>: the median of three
  swaps nothing, the pivot goes to position 16, the scans stop at every value (none is
  less than the pivot) and swap the pairs (1, 15), (2, 14), ..., (7, 9) before they
  cross; the two parts have fewer than 18 values and insertion moves none of them.
  The customer table is the first ten rows of the result: C00, C01, and then C16 down
  to C09 in place of C02 to C09. Where numpy dispatches a vectorised quicksort
  instead, the equal sums come out in another order, which that routine fixes.
\<close>

lemma aquicksort_eighteen_ties:
  "aquicksort (replicate 18 (Num 1)) =
     Some [0, 15, 14, 13, 12, 11, 10, 9, 8, 7, 6, 5, 4, 3, 2, 1, 16, 17]"
  by code_simp

lemma nargsort_eighteen_ties:
  "nargsort np_quicksort (replicate 18 (Num 1)) False =
     [0, 1, 16, 15, 14, 13, 12, 11, 10, 9, 8, 7, 6, 5, 4, 3, 2, 17]"
  by code_simp

lemma df_cliente_eighteen_ties:
  "bind (filtered_of_sheet strict_dates no_numbers pandas3_na (\<lambda>c x. True) sheet18)
     (\<lambda>sub. df_cliente np_quicksort sum_list sub) =
     Inr \<lparr>index = [0, 1, 16, 15, 14, 13, 12, 11, 10, 9],
          cols = [(''cliente'', [Txt ''C00'', Txt ''C01'', Txt ''C16'', Txt ''C15'', Txt ''C14'', Txt ''C13'', Txt ''C12'', Txt ''C11'', Txt ''C10'', Txt ''C09'']),
                  (''valor_venda'', replicate 10 (Num 1))]\<rparr>"
  by code_simp

text \<open>The two equal sums of the sheet of two customers stay in group order.\<close>

lemma ties_in_group_order_two_customers:
  "bind (filtered_of_sheet strict_dates no_numbers pandas3_na (\<lambda>c x. True) sheet_tie)
     (\<lambda>sub. df_cliente np_quicksort sum_list sub) =
     Inr \<lparr>index = [0, 1],
          cols = [(''cliente'', [Txt ''A'', Txt ''B'']), (''valor_venda'', [Num 100, Num 100])]\<rparr>"
  by code_simp

text \<open>
  C7, as amended. In a run of the script (the table loaded from a sheet, the selection
  returned by the widgets, the filtered table), for every sort the library may use and
  whatever its sums round to: the four grouped tables exist, and each grouping holds
  every row of the filtered table in exactly one group, since no row of the filtered
  table has a missing key (the widgets offer no missing value, and a row without a
  sale date, whose month may be missing, has no year and is filtered out). So the sums
  of a table are sums of the sale values of the filtered table, each value in one
  group, and they add up to the total revenue but for the rounding of the
  floating-point sums: when none of the sums rounds (\<open>sums_exact\<close>), the sums of the
  month table, of the solution-type table and of the salesperson table add up to
  the total revenue exactly, and so do the sums of the customer table before it is
  cut to ten rows, hence those of the customer table itself when there are at most
  ten customers.
\<close>

theorem grouped_totals_conserved:
  assumes ok: "argsort_ok argsort"
    and wf0: "wf_frame (rename raw column_names)"
    and ld: "load_data to_stamp to_num na raw = Inr df"
    and sb: "sidebar df ticked = Inr sel"
    and fl: "df_filtrado df sel = Inr sub"
  shows "\<exists>tv m t v s.
           total_vendas fsum sub = Inr tv \<and>
           df_mes argsort gsum sub = Inr m \<and>
           df_tipo argsort gsum sub = Inr t \<and>
           df_vendedor argsort gsum sub = Inr v \<and>
           bind (groupby_sum gsum sub ''cliente'' ''valor_venda'')
             (\<lambda>g. sort_values argsort g ''valor_venda'' False) = Inr s \<and>
           df_cliente argsort gsum sub = Inr (head 10 s) \<and>
           rows_in_groups sub ''ano_mes'' \<and> rows_in_groups sub ''tipo_solucao'' \<and>
           rows_in_groups sub ''vendedor'' \<and> rows_in_groups sub ''cliente'' \<and>
           (sums_exact fsum gsum sub \<longrightarrow>
              total_vendas sum_list m = Inr tv \<and> total_vendas sum_list t = Inr tv \<and>
              total_vendas sum_list v = Inr tv \<and> total_vendas sum_list s = Inr tv \<and>
              (qtd_vendas s \<le> 10 \<longrightarrow> total_vendas sum_list (head 10 s) = Inr tv))"
proof -
  from load_data_Inr [OF ld wf0] obtain dv vv where
    wf: "wf_frame df" and gdv: "getitem df ''data_venda'' = Inr dv"
    and gan: "getitem df ''ano'' = Inr (map dt_year dv)"
    and gym: "getitem df ''ano_mes'' = Inr (map (to_period_str na) dv)"
    and gvv: "getitem df ''valor_venda'' = Inr vv"
    by blast
  note hc = sidebar_has_cols [OF sb]
  from hc obtain vd tp cl where
    g: "getitem df ''vendedor'' = Inr vd"
       "getitem df ''tipo_solucao'' = Inr tp" "getitem df ''cliente'' = Inr cl"
    by (auto simp: has_cols_def split: sum.splits)
  from df_filtrado_take_rows [OF wf hc fl] obtain ps where
    sub: "sub = take_rows df ps" and wfs: "wf_frame sub"
    and q: "\<forall>i \<in> set ps. i < length (index df) \<and> qualifies sel (row_at df i)"
    by blast
  have d: "(''vendedor'', vendedor_selecionado sel) \<in> set (dims sel)"
      "(''tipo_solucao'', tipo_selecionado sel) \<in> set (dims sel)"
      "(''cliente'', cliente_selecionado sel) \<in> set (dims sel)"
      "(''ano'', ano_selecionado sel) \<in> set (dims sel)"
    by (simp_all add: dims_def)
  note nbs = d [THEN sidebar_no_blank [OF sb]]
  have nvd: "Blank \<notin> set (map ((!) vd) ps)"
    using filtered_dim_no_blank [OF q _ d(1)] g(1) nbs(1) by simp
  have ntp: "Blank \<notin> set (map ((!) tp) ps)"
    using filtered_dim_no_blank [OF q _ d(2)] g(2) nbs(2) by simp
  have ncl: "Blank \<notin> set (map ((!) cl) ps)"
    using filtered_dim_no_blank [OF q _ d(3)] g(3) nbs(3) by simp
  have nan: "Blank \<notin> set (map ((!) (map dt_year dv)) ps)"
    using filtered_dim_no_blank [OF q _ d(4)] gan nbs(4) by simp
  have nym: "Blank \<notin> set (map ((!) (map (to_period_str na) dv)) ps)"
  proof
    assume "Blank \<in> set (map ((!) (map (to_period_str na) dv)) ps)"
    then obtain i where i: "i \<in> set ps" "map (to_period_str na) dv ! i = Blank" by auto
    with q getitem_length [OF wf gdv] have l: "i < length dv" by simp
    from nan i(1) have "map dt_year dv ! i \<noteq> Blank" by force
    with l obtain t where "dv ! i = Ts t"
      by (cases "dv ! i") (simp_all add: dt_year_def)
    with i(2) l show False by (simp add: to_period_str_def)
  qed
  let ?vs = "map ((!) vv) ps"
  have sv: "getitem sub ''valor_venda'' = Inr ?vs" by (simp add: sub getitem_take_rows [OF gvv])
  have sk: "getitem sub ''ano_mes'' = Inr (map ((!) (map (to_period_str na) dv)) ps)"
    "getitem sub ''tipo_solucao'' = Inr (map ((!) tp) ps)"
    "getitem sub ''vendedor'' = Inr (map ((!) vd) ps)"
    "getitem sub ''cliente'' = Inr (map ((!) cl) ps)"
    by (simp_all add: sub getitem_take_rows [OF gym] getitem_take_rows [OF g(1)]
        getitem_take_rows [OF g(2)] getitem_take_rows [OF g(3)])
  have tv: "total_vendas fsum sub = Inr (sum_skipna fsum ?vs)" by (simp add: total_vendas_def sv)
  from grouped_then_sorted [OF ok sk(1) sv, of "''ano_mes''" gsum True]
  obtain m where m: "df_mes argsort gsum sub = Inr m"
    by (auto simp: df_mes_def)
  from grouped_then_sorted [OF ok sk(2) sv, of "''valor_venda''" gsum False]
  obtain t where t: "df_tipo argsort gsum sub = Inr t"
    by (auto simp: df_tipo_def)
  from grouped_then_sorted [OF ok sk(3) sv, of "''valor_venda''" gsum False]
  obtain v where v: "df_vendedor argsort gsum sub = Inr v"
    by (auto simp: df_vendedor_def)
  from grouped_then_sorted [OF ok sk(4) sv, of "''valor_venda''" gsum False]
  obtain s where s: "bind (groupby_sum gsum sub ''cliente'' ''valor_venda'')
             (\<lambda>g. sort_values argsort g ''valor_venda'' False) = Inr s" "wf_frame s"
    by auto
  from s(1) have c: "df_cliente argsort gsum sub = Inr (head 10 s)"
    by (auto simp: df_cliente_def bind_Inr_iff)
  have p: "rows_in_groups sub ''ano_mes''" "rows_in_groups sub ''tipo_solucao''"
    "rows_in_groups sub ''vendedor''" "rows_in_groups sub ''cliente''"
    using rows_in_groups_no_blank [OF wfs sk(1) sv nym] rows_in_groups_no_blank [OF wfs sk(2) sv ntp]
      rows_in_groups_no_blank [OF wfs sk(3) sv nvd] rows_in_groups_no_blank [OF wfs sk(4) sv ncl]
    by simp_all
  have e: "total_vendas sum_list m = Inr (sum_skipna fsum ?vs) \<and>
      total_vendas sum_list t = Inr (sum_skipna fsum ?vs) \<and>
      total_vendas sum_list v = Inr (sum_skipna fsum ?vs) \<and>
      total_vendas sum_list s = Inr (sum_skipna fsum ?vs) \<and>
      (qtd_vendas s \<le> 10 \<longrightarrow> total_vendas sum_list (head 10 s) = Inr (sum_skipna fsum ?vs))"
    if ex: "sums_exact fsum gsum sub"
  proof -
    from ex sv have "fsum (fillna0 ?vs) = sum_list (fillna0 ?vs)"
      by (simp add: sums_exact_def)
    then have f: "sum_skipna fsum ?vs = sum_skipna sum_list ?vs"
      by (simp add: sum_skipna_def)
    from ex have x: "group_sums_exact gsum sub ''ano_mes''" "group_sums_exact gsum sub ''tipo_solucao''"
      "group_sums_exact gsum sub ''vendedor''" "group_sums_exact gsum sub ''cliente''"
      by (simp_all add: sums_exact_def)
    from grouped_total_conserved [OF ok wfs sk(1) sv _ _ nym x(1), of "''ano_mes''" True] m
    have 1: "total_vendas sum_list m = Inr (sum_skipna sum_list ?vs)"
      by (auto simp: df_mes_def)
    from grouped_total_conserved [OF ok wfs sk(2) sv _ _ ntp x(2), of "''valor_venda''" False] t
    have 2: "total_vendas sum_list t = Inr (sum_skipna sum_list ?vs)"
      by (auto simp: df_tipo_def)
    from grouped_total_conserved [OF ok wfs sk(3) sv _ _ nvd x(3), of "''valor_venda''" False] v
    have 3: "total_vendas sum_list v = Inr (sum_skipna sum_list ?vs)"
      by (auto simp: df_vendedor_def)
    from grouped_total_conserved [OF ok wfs sk(4) sv _ _ ncl x(4), of "''valor_venda''" False] s(1)
    have 4: "total_vendas sum_list s = Inr (sum_skipna sum_list ?vs)"
      by auto
    from 1 2 3 4 total_vendas_head [OF s(2) 4, of 10] show ?thesis by (simp add: f)
  qed
  from tv m t v s(1) c p e show ?thesis by blast
qed

text \<open>
  A run on the sheet with gaps, with pandas 3, all widgets at their default and sums
  that do not round (the sale values are whole numbers): the filtered table holds the
  first and the fourth sale, its total revenue is 100, and the sums of the
  solution-type table add up to 100.
\<close>

theorem grouped_totals_conserved_witness:
  "argsort_ok argsort_stable \<and>
   wf_frame (rename sheet_gaps column_names) \<and>
   load_data strict_dates no_numbers pandas3_na sheet_gaps = Inr loaded_gaps3 \<and>
   sidebar loaded_gaps3 (\<lambda>c x. True) = Inr sel_all \<and>
   df_filtrado loaded_gaps3 sel_all = Inr (take_rows loaded_gaps3 [0, 3]) \<and>
   sums_exact sum_list sum_list (take_rows loaded_gaps3 [0, 3]) \<and>
   total_vendas sum_list (take_rows loaded_gaps3 [0, 3]) = Inr 100 \<and>
   rows_in_groups (take_rows loaded_gaps3 [0, 3]) ''tipo_solucao'' \<and>
   bind (df_tipo argsort_stable sum_list (take_rows loaded_gaps3 [0, 3])) (total_vendas sum_list) = Inr 100"
proof -
  have wf0: "wf_frame (rename sheet_gaps column_names)" by code_simp
  have sb: "sidebar loaded_gaps3 (\<lambda>c x. True) = Inr sel_all" by code_simp
  have fl: "df_filtrado loaded_gaps3 sel_all = Inr (take_rows loaded_gaps3 [0, 3])" by code_simp
  have ex: "sums_exact sum_list sum_list (take_rows loaded_gaps3 [0, 3])" by code_simp
  have tv: "total_vendas sum_list (take_rows loaded_gaps3 [0, 3]) = Inr 100" by code_simp
  from grouped_totals_conserved [OF argsort_stable_ok wf0 load_sheet_gaps3 sb fl, of sum_list sum_list] tv ex
  have "rows_in_groups (take_rows loaded_gaps3 [0, 3]) ''tipo_solucao'' \<and>
      bind (df_tipo argsort_stable sum_list (take_rows loaded_gaps3 [0, 3])) (total_vendas sum_list) = Inr 100"
    by auto
  with argsort_stable_ok wf0 load_sheet_gaps3 sb fl ex tv show ?thesis by simp
qed

text \<open>
  C7, the claim as stated, fails for the customer dimension: on the sheet of eleven
  customers with one sale of 1 each, the customer table has ten rows whose sums add up
  to 10, and the total revenue of the filtered table is 11. (Eleven values are sorted
  by insertion, and sums of one value do not round.)
\<close>

theorem top10_drops_revenue_counterexample:
  "bind (filtered_of_sheet strict_dates no_numbers pandas3_na (\<lambda>c x. True) sheet11) (\<lambda>sub.
   bind (df_cliente np_quicksort sum_list sub) (\<lambda>c.
   bind (total_vendas sum_list c) (\<lambda>gt.
   bind (total_vendas sum_list sub) (\<lambda>tv. Inr (qtd_vendas sub, qtd_vendas c, gt, tv)))))
   = Inr (11, 10, 10, 11)"
  by code_simp

end
